theory Spec2Isabelle
  imports Complex_Main
begin

section \<open>The FINMA LCR data generator (lcr\_data\_generator.py)\<close>

text \<open>
  A shallow embedding of class \<open>FINMALCRDataGenerator\<close>: its constructor, the two
  samplers \<open>generate_hqla_holdings\<close> and \<open>generate_deposit_balances\<close>, and the
  driver \<open>generate_time_series\<close>.

  Conventions of the embedding.
  \<^item> A Python exception is a value \<open>Inl e\<close> of type \<open>py_error + 'a\<close>.
  \<^item> The object \<open>self\<close> is a record; a method that draws from \<open>self.rng\<close>
    takes the record and returns it with the \<open>rng\<close> field advanced.
  \<^item> Python floats are read as real numbers: the comparisons of the source are against
    integral constants and \<open>round(x, 2)\<close> is rounding to two decimals, half to even;
    binary representation error is outside the model.
  \<^item> numpy's \<open>Generator\<close> and \<open>datetime.date\<close> are libraries outside the
    repository. Their operations are the fields of a record \<open>pylib\<close> that every
    function takes as its first argument; what the proofs need of them is the
    predicate \<open>numpy_contract\<close>.
\<close>

subsection \<open>Errors and library interface\<close>

datatype py_error = ValueError | KeyError | StopIteration | ZeroDivisionError

record ('g, 'd) pylib =
  default_rng :: "int \<Rightarrow> 'g"
  rng_integers :: "int \<Rightarrow> int \<Rightarrow> 'g \<Rightarrow> int \<times> 'g"
  rng_integers_size :: "int \<Rightarrow> int \<Rightarrow> nat \<Rightarrow> 'g \<Rightarrow> int list \<times> 'g"
  rng_choice_p :: "string list \<Rightarrow> nat \<Rightarrow> real list \<Rightarrow> 'g \<Rightarrow> string list \<times> 'g"
  rng_choice :: "string list \<Rightarrow> 'g \<Rightarrow> string \<times> 'g"
  rng_uniform :: "real \<Rightarrow> real \<Rightarrow> 'g \<Rightarrow> real \<times> 'g"
  rng_random :: "'g \<Rightarrow> real \<times> 'g"
  choice_atol :: real
  strftime_Ymd :: "'d \<Rightarrow> string"
  isoformat :: "'d \<Rightarrow> string"
  add_days :: "'d \<Rightarrow> int \<Rightarrow> 'd"

text \<open>
  \<open>Generator.choice(a, size=n, p=w)\<close>: numpy raises \<open>ValueError\<close> for a negative
  size, for an empty population when samples are asked for, for a weight vector of
  another length, for a negative weight, and when the weights do not sum to 1 within
  its tolerance; otherwise it draws.
\<close>

definition choice_p ::
  "('g, 'd) pylib \<Rightarrow> string list \<Rightarrow> int \<Rightarrow> real list \<Rightarrow> 'g \<Rightarrow> py_error + (string list \<times> 'g)" where
  "choice_p lib a size' p r =
     (if size' < 0 then Inl ValueError
      else if a = [] \<and> size' \<noteq> 0 then Inl ValueError
      else if length p \<noteq> length a then Inl ValueError
      else if list_ex (\<lambda>w. w < 0) p then Inl ValueError
      else if \<bar>sum_list p - 1\<bar> > choice_atol lib then Inl ValueError
      else Inr (rng_choice_p lib a (nat size') p r))"

text \<open>\<open>Generator.choice(a)\<close>: one element, uniformly; an empty population raises.\<close>

definition choice ::
  "('g, 'd) pylib \<Rightarrow> string list \<Rightarrow> 'g \<Rightarrow> py_error + (string \<times> 'g)" where
  "choice lib a r = (if a = [] then Inl ValueError else Inr (rng_choice lib a r))"

text \<open>What the proofs assume of numpy: draws lie in the population or range asked for.\<close>

definition numpy_contract :: "('g, 'd) pylib \<Rightarrow> bool" where
  "numpy_contract lib \<longleftrightarrow>
     0 \<le> choice_atol lib \<and>
     (\<forall>lo hi r. lo < hi \<longrightarrow>
        lo \<le> fst (rng_integers lib lo hi r) \<and> fst (rng_integers lib lo hi r) < hi) \<and>
     (\<forall>lo hi n r. lo < hi \<longrightarrow>
        length (fst (rng_integers_size lib lo hi n r)) = n \<and>
        (\<forall>k \<in> set (fst (rng_integers_size lib lo hi n r)). lo \<le> k \<and> k < hi)) \<and>
     (\<forall>a n p r. length (fst (rng_choice_p lib a n p r)) = n \<and>
        (a \<noteq> [] \<longrightarrow> set (fst (rng_choice_p lib a n p r)) \<subseteq> set a)) \<and>
     (\<forall>a r. a \<noteq> [] \<longrightarrow> fst (rng_choice lib a r) \<in> set a)"

subsection \<open>String and number formatting\<close>

text \<open>\<open>sub in s\<close> on strings.\<close>

fun starts_with :: "string \<Rightarrow> string \<Rightarrow> bool" where
  "starts_with [] s = True"
| "starts_with (p # ps) [] = False"
| "starts_with (p # ps) (c # cs) = (p = c \<and> starts_with ps cs)"

fun str_contains :: "string \<Rightarrow> string \<Rightarrow> bool" where
  "str_contains sub [] = (sub = [])"
| "str_contains sub (c # cs) = (starts_with sub (c # cs) \<or> str_contains sub cs)"

text \<open>\<open>s[-k:]\<close>: the last \<open>k\<close> characters, the whole string when it is shorter.\<close>

definition last_chars :: "nat \<Rightarrow> string \<Rightarrow> string" where
  "last_chars k s = drop (length s - k) s"

fun digits :: "nat \<Rightarrow> string" where
  "digits n = (if n < 10 then [''0123456789'' ! n]
               else digits (n div 10) @ [''0123456789'' ! (n mod 10)])"

declare digits.simps [simp del]

text \<open>The format specification \<open>{n:0Wd}\<close>: decimal, zero-padded to width \<open>W\<close>.\<close>

definition fmt_d :: "nat \<Rightarrow> int \<Rightarrow> string" where
  "fmt_d width n =
     (if n < 0
      then CHR ''-'' # replicate (width - 1 - length (digits (nat (- n)))) CHR ''0''
                        @ digits (nat (- n))
      else replicate (width - length (digits (nat n))) CHR ''0'' @ digits (nat n))"

text \<open>\<open>round(x, nd)\<close> on a float: to \<open>nd\<close> decimals, ties to the even neighbour.\<close>

definition py_round :: "real \<Rightarrow> nat \<Rightarrow> real" where
  "py_round x nd =
     (let y = x * 10 ^ nd; f = \<lfloor>y\<rfloor>; d = y - of_int f
      in (if d < 1 / 2 then of_int f
          else if d > 1 / 2 then of_int (f + 1)
          else if even f then of_int f else of_int (f + 1)) / 10 ^ nd)"

subsection \<open>The generator object and its constructor\<close>

type_synonym hqla_asset = "string \<times> real \<times> string \<times> real"
type_synonym deposit_type = "string \<times> real \<times> string \<times> real \<times> bool \<times> bool"

record 'g FINMALCRDataGenerator =
  num_customers :: int
  rng :: 'g
  target_lcr :: real
  hqla_assets :: "hqla_asset list"
  deposit_types :: "deposit_type list"
  currencies :: "(string \<times> real) list"
  fx_rates :: "(string \<times> real) list"
  credit_ratings :: "string list"
  smi_stocks :: "string list"

text \<open>
  \<open>__init__\<close>. The dictionary \<open>fx_rates\<close> is kept as its list of items (the keys of
  the literal are distinct) and read with \<open>map_of\<close>.
\<close>

definition init ::
  "('g, 'd) pylib \<Rightarrow> int \<Rightarrow> int \<Rightarrow> real \<Rightarrow> 'g FINMALCRDataGenerator" where
  "init lib num_customers' random_seed target_lcr' =
     \<lparr> num_customers = num_customers',
       rng = default_rng lib random_seed,
       target_lcr = target_lcr',
       hqla_assets =
         [(''CASH_SNB'', 15 / 100, ''L1'', 1),
          (''CASH_VAULT'', 5 / 100, ''L1'', 1),
          (''GOVT_BOND_CHF'', 30 / 100, ''L1'', 1),
          (''GOVT_BOND_FOREIGN'', 10 / 100, ''L1'', 1),
          (''CANTON_BOND'', 15 / 100, ''L2A'', 85 / 100),
          (''COVERED_BOND'', 10 / 100, ''L2A'', 85 / 100),
          (''EQUITY_SMI'', 10 / 100, ''L2B'', 50 / 100),
          (''CORPORATE_BOND_AA'', 5 / 100, ''L2B'', 50 / 100)],
       deposit_types =
         [(''RETAIL_STABLE_INSURED'', 40 / 100, ''RETAIL'', 3 / 100, True, True),
          (''RETAIL_STABLE'', 30 / 100, ''RETAIL'', 5 / 100, True, True),
          (''RETAIL_LESS_STABLE'', 15 / 100, ''RETAIL'', 10 / 100, False, False),
          (''CORPORATE_OPERATIONAL'', 10 / 100, ''CORPORATE'', 25 / 100, False, True),
          (''CORPORATE_NON_OPERATIONAL'', 4 / 100, ''CORPORATE'', 40 / 100, False, False),
          (''FINANCIAL_INSTITUTION'', 1 / 100, ''FINANCIAL_INSTITUTION'', 1, False, False)],
       currencies =
         [(''CHF'', 60 / 100), (''EUR'', 20 / 100), (''USD'', 15 / 100), (''GBP'', 5 / 100)],
       fx_rates =
         [(''CHF'', 1), (''EUR'', 95 / 100), (''USD'', 88 / 100), (''GBP'', 112 / 100)],
       credit_ratings = [''AAA'', ''AA+'', ''AA'', ''AA-'', ''A+'', ''A'', ''A-''],
       smi_stocks =
         [''CH0012032048'', ''CH0244767585'', ''CH0038863350'', ''CH0012005267'',
          ''CH0012221716'', ''CH0024608827'', ''CH0012138530'', ''CH0012032113'',
          ''CH0025751329'', ''CH0210483332''] \<rparr>"

subsection \<open>HQLA holdings\<close>

record hqla_holding =
  HOLDING_ID :: string
  AS_OF_DATE :: string
  ASSET_TYPE :: string
  ISIN :: "string option"
  SECURITY_NAME :: string
  CURRENCY :: string
  QUANTITY :: "int option"
  MARKET_VALUE_CCY :: real
  MARKET_VALUE_CHF :: real
  FX_RATE :: real
  MATURITY_DATE :: "string option"
  CREDIT_RATING :: "string option"
  SMI_CONSTITUENT :: bool
  HQLA_ELIGIBLE :: bool
  PORTFOLIO_CODE :: string
  CUSTODIAN :: string

text \<open>
  The identification block of the loop body: ISIN, index flag, rating, maturity, quantity
  and security name, by asset-type category (\<open>if 'EQUITY' in asset_type ... elif ...\<close>).
\<close>

definition security_fields ::
  "('g, 'd) pylib \<Rightarrow> 'g FINMALCRDataGenerator \<Rightarrow> 'd \<Rightarrow> string \<Rightarrow> string \<Rightarrow> 'g \<Rightarrow>
   py_error + ((string option \<times> bool \<times> string option \<times> string option \<times> int option \<times> string) \<times> 'g)" where
  "security_fields lib self as_of_date asset_type currency r0 =
     (if str_contains ''EQUITY'' asset_type then
        (case choice lib (smi_stocks self) r0 of
           Inl e \<Rightarrow> Inl e
         | Inr (isin, r1) \<Rightarrow>
             (let (quantity, r2) = rng_integers lib 100 10000 r1
              in Inr ((Some isin, True, None, None, Some quantity,
                       ''SMI Stock '' @ last_chars 4 isin), r2)))
      else if str_contains ''BOND'' asset_type \<or> str_contains ''COVERED'' asset_type then
        (let (k, r1) = rng_integers lib 10000000 99999999 r0;
             isin = currency @ fmt_d 8 k
         in case choice lib (credit_ratings self) r1 of
              Inl e \<Rightarrow> Inl e
            | Inr (credit_rating, r2) \<Rightarrow>
                (let (days_to_maturity, r3) = rng_integers lib 365 3650 r2;
                     maturity_date = isoformat lib (add_days lib as_of_date days_to_maturity)
                 in Inr ((Some isin, False, Some credit_rating, Some maturity_date, None,
                          asset_type @ '' '' @ last_chars 6 isin), r3)))
      else Inr ((None, False, None, None, None, asset_type), r0))"

text \<open>One iteration of the loop of \<open>generate_hqla_holdings\<close>; \<open>i\<close> is the index of \<open>enumerate\<close>.\<close>

definition hqla_row ::
  "('g, 'd) pylib \<Rightarrow> 'g FINMALCRDataGenerator \<Rightarrow> 'd \<Rightarrow> real \<Rightarrow> nat \<Rightarrow> string \<Rightarrow> string \<Rightarrow> 'g \<Rightarrow>
   py_error + (hqla_holding \<times> 'g)" where
  "hqla_row lib self as_of_date daily_variance i asset_type currency r0 =
     (let holding_id = ''HOLD-'' @ strftime_Ymd lib as_of_date @ ''-'' @ fmt_d 5 (int i + 1)
      in case security_fields lib self as_of_date asset_type currency r0 of
           Inl e \<Rightarrow> Inl e
         | Inr ((isin, smi_constituent, credit_rating, maturity_date, quantity, security_name), r1) \<Rightarrow>
      (let (base_value, r2) =
             (if asset_type \<in> set [''CASH_SNB'', ''CASH_VAULT'']
              then rng_uniform lib 10000000 200000000 r1
              else if str_contains ''EQUITY'' asset_type
              then rng_uniform lib 5000000 100000000 r1
              else rng_uniform lib 20000000 500000000 r1);
           (u, r3) = rng_uniform lib (- (5 / 100)) (5 / 100) r2;
           variance_factor = 1 + daily_variance * u;
           market_value_chf = base_value * variance_factor
       in case map_of (fx_rates self) currency of
            None \<Rightarrow> Inl KeyError
          | Some fx_rate \<Rightarrow>
       if currency \<noteq> ''CHF'' \<and> fx_rate = 0 then Inl ZeroDivisionError
       else
         (let market_value_ccy =
                (if currency \<noteq> ''CHF'' then market_value_chf / fx_rate else market_value_chf);
              (x, r4) = rng_random lib r3;
              hqla_eligible = (x > 5 / 100)
          in case choice lib [''TREASURY_LIQ'', ''TREASURY_INV'', ''ALM_BUFFER''] r4 of
               Inl e \<Rightarrow> Inl e
             | Inr (portfolio_code, r5) \<Rightarrow>
          (case choice lib [''SIX SIS'', ''EUROCLEAR'', ''CLEARSTREAM''] r5 of
             Inl e \<Rightarrow> Inl e
           | Inr (custodian, r6) \<Rightarrow>
               Inr (\<lparr> HOLDING_ID = holding_id,
                      AS_OF_DATE = isoformat lib as_of_date,
                      ASSET_TYPE = asset_type,
                      ISIN = isin,
                      SECURITY_NAME = security_name,
                      CURRENCY = currency,
                      QUANTITY = quantity,
                      MARKET_VALUE_CCY = py_round market_value_ccy 2,
                      MARKET_VALUE_CHF = py_round market_value_chf 2,
                      FX_RATE = fx_rate,
                      MATURITY_DATE = maturity_date,
                      CREDIT_RATING = credit_rating,
                      SMI_CONSTITUENT = smi_constituent,
                      HQLA_ELIGIBLE = hqla_eligible,
                      PORTFOLIO_CODE = portfolio_code,
                      CUSTODIAN = custodian \<rparr>, r6)))))"

text \<open>The loop over \<open>enumerate(zip(asset_types, currencies))\<close>, appending one row each.\<close>

fun hqla_loop ::
  "('g, 'd) pylib \<Rightarrow> 'g FINMALCRDataGenerator \<Rightarrow> 'd \<Rightarrow> real \<Rightarrow> nat \<Rightarrow> (string \<times> string) list \<Rightarrow> 'g \<Rightarrow>
   py_error + (hqla_holding list \<times> 'g)" where
  "hqla_loop lib self d v i [] r = Inr ([], r)"
| "hqla_loop lib self d v i ((asset_type, currency) # rest) r =
     (case hqla_row lib self d v i asset_type currency r of
        Inl e \<Rightarrow> Inl e
      | Inr (row, r') \<Rightarrow>
          (case hqla_loop lib self d v (Suc i) rest r' of
             Inl e \<Rightarrow> Inl e
           | Inr (rows, r'') \<Rightarrow> Inr (row # rows, r'')))"

definition generate_hqla_holdings ::
  "('g, 'd) pylib \<Rightarrow> 'g FINMALCRDataGenerator \<Rightarrow> 'd \<Rightarrow> real \<Rightarrow>
   py_error + (hqla_holding list \<times> 'g FINMALCRDataGenerator)" where
  "generate_hqla_holdings lib self as_of_date daily_variance =
     (let (num_holdings, r1) = rng_integers lib 150 300 (rng self)
      in case choice_p lib (map fst (hqla_assets self)) num_holdings
                (map (\<lambda>a. fst (snd a)) (hqla_assets self)) r1 of
           Inl e \<Rightarrow> Inl e
         | Inr (asset_types, r2) \<Rightarrow>
      (case choice_p lib (map fst (currencies self)) num_holdings
              (map snd (currencies self)) r2 of
         Inl e \<Rightarrow> Inl e
       | Inr (currencies', r3) \<Rightarrow>
      (case hqla_loop lib self as_of_date daily_variance 0 (zip asset_types currencies') r3 of
         Inl e \<Rightarrow> Inl e
       | Inr (holdings, r4) \<Rightarrow> Inr (holdings, self\<lparr>rng := r4\<rparr>))))"

subsection \<open>Deposit balances\<close>

record deposit_balance =
  ACCOUNT_ID :: string
  AS_OF_DATE :: string
  CUSTOMER_ID :: string
  DEPOSIT_TYPE :: string
  CURRENCY :: string
  BALANCE_CCY :: real
  BALANCE_CHF :: real
  FX_RATE :: real
  IS_INSURED :: bool
  PRODUCT_COUNT :: int
  ACCOUNT_TENURE_DAYS :: int
  HAS_DIRECT_DEBIT :: bool
  IS_OPERATIONAL :: bool
  COUNTERPARTY_TYPE :: string
  CUSTOMER_SEGMENT :: string
  ACCOUNT_STATUS :: string

text \<open>
  One iteration of the loop of \<open>generate_deposit_balances\<close>. The dictionary
  \<open>customer_account_counter\<close> is a map; the iteration returns it updated.
\<close>

definition deposit_row ::
  "('g, 'd) pylib \<Rightarrow> 'g FINMALCRDataGenerator \<Rightarrow> 'd \<Rightarrow> string \<Rightarrow> string \<Rightarrow> string \<Rightarrow>
   (string \<rightharpoonup> int) \<Rightarrow> 'g \<Rightarrow> py_error + (deposit_balance \<times> (string \<rightharpoonup> int) \<times> 'g)" where
  "deposit_row lib self as_of_date customer_id deposit_type currency customer_account_counter r0 =
     (let ordinal = (case customer_account_counter customer_id of None \<Rightarrow> 1 | Some n \<Rightarrow> n + 1);
          counter' = customer_account_counter(customer_id \<mapsto> ordinal);
          account_id = customer_id @ ''_DEP_'' @ fmt_d 2 ordinal
      in case find (\<lambda>d. fst d = deposit_type) (deposit_types self) of
           None \<Rightarrow> Inl StopIteration
         | Some (_, _, counterparty_type, _, allows_discount, is_operational) \<Rightarrow>
      (let (balance_chf, r1) =
             (if counterparty_type = ''RETAIL'' then rng_uniform lib 5000 80000 r0
              else if counterparty_type = ''CORPORATE'' then rng_uniform lib 30000 800000 r0
              else rng_uniform lib 100000 3000000 r0);
           fx_rate = (case map_of (fx_rates self) currency of None \<Rightarrow> 1 | Some x \<Rightarrow> x)
       in if currency \<noteq> ''CHF'' \<and> fx_rate = 0 then Inl ZeroDivisionError
          else
       (let balance_ccy = (if currency \<noteq> ''CHF'' then balance_chf / fx_rate else balance_chf);
            is_insured = (counterparty_type = ''RETAIL'' \<and> balance_chf \<le> 100000);
            (product_count, r2) =
              (if allows_discount then rng_integers lib 1 6 r1 else (1, r1));
            (account_tenure_days, r3) = rng_integers lib 30 3650 r2;
            (x, r4) = rng_random lib r3;
            has_direct_debit =
              (x < (if counterparty_type = ''RETAIL'' then 7 / 10 else 3 / 10));
            customer_segment =
              (if counterparty_type = ''RETAIL'' then
                 (if balance_chf < 50000 then ''MASS''
                  else if balance_chf < 250000 then ''AFFLUENT''
                  else ''PRIVATE'')
               else ''CORPORATE'');
            (y, r5) = rng_random lib r4;
            account_status = (if y < 98 / 100 then ''ACTIVE'' else ''DORMANT'')
        in Inr (\<lparr> ACCOUNT_ID = account_id,
                  AS_OF_DATE = isoformat lib as_of_date,
                  CUSTOMER_ID = customer_id,
                  DEPOSIT_TYPE = deposit_type,
                  CURRENCY = currency,
                  BALANCE_CCY = py_round balance_ccy 2,
                  BALANCE_CHF = py_round balance_chf 2,
                  FX_RATE = fx_rate,
                  IS_INSURED = is_insured,
                  PRODUCT_COUNT = product_count,
                  ACCOUNT_TENURE_DAYS = account_tenure_days,
                  HAS_DIRECT_DEBIT = has_direct_debit,
                  IS_OPERATIONAL = is_operational,
                  COUNTERPARTY_TYPE = counterparty_type,
                  CUSTOMER_SEGMENT = customer_segment,
                  ACCOUNT_STATUS = account_status \<rparr>, counter', r5))))"

text \<open>The loop over \<open>zip(expanded_customer_ids, deposit_types, currencies)\<close>.\<close>

fun deposit_loop ::
  "('g, 'd) pylib \<Rightarrow> 'g FINMALCRDataGenerator \<Rightarrow> 'd \<Rightarrow> (string \<times> string \<times> string) list \<Rightarrow>
   (string \<rightharpoonup> int) \<Rightarrow> 'g \<Rightarrow> py_error + (deposit_balance list \<times> 'g)" where
  "deposit_loop lib self d [] counter r = Inr ([], r)"
| "deposit_loop lib self d ((customer_id, deposit_type, currency) # rest) counter r =
     (case deposit_row lib self d customer_id deposit_type currency counter r of
        Inl e \<Rightarrow> Inl e
      | Inr (row, counter', r') \<Rightarrow>
          (case deposit_loop lib self d rest counter' r' of
             Inl e \<Rightarrow> Inl e
           | Inr (rows, r'') \<Rightarrow> Inr (row # rows, r'')))"

text \<open>\<open>expanded_customer_ids\<close>: each id repeated as often as its account count.\<close>

definition expand_customer_ids :: "string list \<Rightarrow> int list \<Rightarrow> string list" where
  "expand_customer_ids customer_ids num_accounts_per_customer =
     concat (map (\<lambda>(cust_id, num_accounts). replicate (nat num_accounts) cust_id)
                 (zip customer_ids num_accounts_per_customer))"

definition generate_deposit_balances ::
  "('g, 'd) pylib \<Rightarrow> 'g FINMALCRDataGenerator \<Rightarrow> 'd \<Rightarrow> string list \<Rightarrow>
   py_error + (deposit_balance list \<times> 'g FINMALCRDataGenerator)" where
  "generate_deposit_balances lib self as_of_date customer_ids =
     (let (num_accounts_per_customer, r1) =
            rng_integers_size lib 1 4 (length customer_ids) (rng self);
          total_accounts = sum_list num_accounts_per_customer;
          expanded_customer_ids = expand_customer_ids customer_ids num_accounts_per_customer
      in case choice_p lib (map fst (deposit_types self)) total_accounts
                (map (\<lambda>d. fst (snd d)) (deposit_types self)) r1 of
           Inl e \<Rightarrow> Inl e
         | Inr (deposit_types', r2) \<Rightarrow>
      (case choice_p lib [''CHF'', ''EUR'', ''USD''] total_accounts
              [80 / 100, 15 / 100, 5 / 100] r2 of
         Inl e \<Rightarrow> Inl e
       | Inr (currencies', r3) \<Rightarrow>
      (case deposit_loop lib self as_of_date
              (zip expanded_customer_ids (zip deposit_types' currencies')) Map.empty r3 of
         Inl e \<Rightarrow> Inl e
       | Inr (deposits, r4) \<Rightarrow> Inr (deposits, self\<lparr>rng := r4\<rparr>))))"

subsection \<open>The time-series driver\<close>

text \<open>
  \<open>to_csv\<close> is modelled by appending the written file (directory, name, rows) to the
  list of files written so far.
\<close>

datatype csv_rows = Hqla_rows "hqla_holding list" | Deposit_rows "deposit_balance list"

type_synonym csv_file = "string \<times> string \<times> csv_rows"

fun time_series_loop ::
  "('g, 'd) pylib \<Rightarrow> 'd \<Rightarrow> int \<Rightarrow> string \<Rightarrow> string list \<Rightarrow> nat list \<Rightarrow>
   'g FINMALCRDataGenerator \<times> int \<times> int \<times> csv_file list \<Rightarrow>
   py_error + ('g FINMALCRDataGenerator \<times> int \<times> int \<times> csv_file list)" where
  "time_series_loop lib start_date num_days output_dir customer_ids [] st = Inr st"
| "time_series_loop lib start_date num_days output_dir customer_ids (day # rest)
       (self, total_hqla, total_deposits, files) =
     (let current_date = add_days lib start_date (int day);
          daily_variance = (if day > 0 then real day / real_of_int num_days else 0)
      in case generate_hqla_holdings lib self current_date daily_variance of
           Inl e \<Rightarrow> Inl e
         | Inr (df_hqla, self1) \<Rightarrow>
      (let hqla_file = (output_dir,
                        ''hqla_holdings_'' @ strftime_Ymd lib current_date @ ''.csv'',
                        Hqla_rows df_hqla);
           total_hqla1 = total_hqla + int (length df_hqla)
       in case generate_deposit_balances lib self1 current_date customer_ids of
            Inl e \<Rightarrow> Inl e
          | Inr (df_deposits, self2) \<Rightarrow>
       (let deposits_file = (output_dir,
                             ''deposit_balances_'' @ strftime_Ymd lib current_date @ ''.csv'',
                             Deposit_rows df_deposits);
            total_deposits1 = total_deposits + int (length df_deposits)
        in time_series_loop lib start_date num_days output_dir customer_ids rest
             (self2, total_hqla1, total_deposits1, files @ [hqla_file, deposits_file]))))"

definition generate_time_series ::
  "('g, 'd) pylib \<Rightarrow> 'g FINMALCRDataGenerator \<Rightarrow> 'd \<Rightarrow> int \<Rightarrow> string \<Rightarrow> string list option \<Rightarrow>
   py_error + ((int \<times> int) \<times> csv_file list \<times> 'g FINMALCRDataGenerator)" where
  "generate_time_series lib self start_date num_days output_dir customer_ids =
     (let customer_ids' =
            (case customer_ids of
               None \<Rightarrow> map (\<lambda>i. ''CUST-'' @ fmt_d 6 (int i + 1)) [0..<nat (num_customers self)]
             | Some ids \<Rightarrow> ids)
      in case time_series_loop lib start_date num_days output_dir customer_ids'
                [0..<nat num_days] (self, 0, 0, []) of
           Inl e \<Rightarrow> Inl e
         | Inr (self', total_hqla, total_deposits, files) \<Rightarrow>
             Inr ((total_hqla, total_deposits), files, self'))"

text \<open>
  What a run leaves behind: the exception, or the returned totals, the files written and
  the state of the random stream.
\<close>

definition written ::
  "py_error + ((int \<times> int) \<times> csv_file list \<times> 'g FINMALCRDataGenerator) \<Rightarrow>
   py_error + ((int \<times> int) \<times> csv_file list \<times> 'g)" where
  "written res =
     (case res of
        Inl e \<Rightarrow> Inl e
      | Inr (totals, files, self') \<Rightarrow> Inr (totals, files, rng self'))"

subsection \<open>A concrete library instance\<close>

text \<open>
  An executable instance of \<open>pylib\<close>, for evaluating the model on concrete inputs.
  The generator state is a tape of future raw draws: naturals for the integer and
  choice draws, fractions of the unit interval for \<open>uniform\<close> and \<open>random\<close>; an
  exhausted tape yields 0. Dates are day numbers.
\<close>

type_synonym tape = "nat list \<times> real list"

definition pop_nat :: "tape \<Rightarrow> nat \<times> tape" where
  "pop_nat t = (case fst t of [] \<Rightarrow> (0, t) | k # ks \<Rightarrow> (k, (ks, snd t)))"

definition pop_unit :: "tape \<Rightarrow> real \<times> tape" where
  "pop_unit t = (case snd t of [] \<Rightarrow> (0, t) | u # us \<Rightarrow> (u, (fst t, us)))"

definition tape_integers :: "int \<Rightarrow> int \<Rightarrow> tape \<Rightarrow> int \<times> tape" where
  "tape_integers lo hi t = (let (k, t') = pop_nat t in (lo + int k mod (hi - lo), t'))"

primrec tape_integers_size :: "int \<Rightarrow> int \<Rightarrow> nat \<Rightarrow> tape \<Rightarrow> int list \<times> tape" where
  "tape_integers_size lo hi 0 t = ([], t)"
| "tape_integers_size lo hi (Suc n) t =
     (let (k, t') = tape_integers lo hi t; (ks, t'') = tape_integers_size lo hi n t'
      in (k # ks, t''))"

definition tape_choice :: "string list \<Rightarrow> tape \<Rightarrow> string \<times> tape" where
  "tape_choice a t =
     (let (k, t') = pop_nat t in ((if a = [] then [] else a ! (k mod length a)), t'))"

primrec tape_choice_p :: "string list \<Rightarrow> nat \<Rightarrow> real list \<Rightarrow> tape \<Rightarrow> string list \<times> tape" where
  "tape_choice_p a 0 p t = ([], t)"
| "tape_choice_p a (Suc n) p t =
     (let (x, t') = tape_choice a t; (xs, t'') = tape_choice_p a n p t' in (x # xs, t''))"

definition tape_uniform :: "real \<Rightarrow> real \<Rightarrow> tape \<Rightarrow> real \<times> tape" where
  "tape_uniform lo hi t = (let (u, t') = pop_unit t in (lo + (hi - lo) * u, t'))"

definition tape_lib :: "(tape, int) pylib" where
  "tape_lib =
     \<lparr> default_rng = (\<lambda>seed. ([nat \<bar>seed\<bar>], [])),
       rng_integers = tape_integers,
       rng_integers_size = tape_integers_size,
       rng_choice_p = tape_choice_p,
       rng_choice = tape_choice,
       rng_uniform = tape_uniform,
       rng_random = pop_unit,
       choice_atol = 1 / 10 ^ 8,
       strftime_Ymd = fmt_d 8,
       isoformat = fmt_d 8,
       add_days = (\<lambda>d k. d + k) \<rparr>"

subsection \<open>Concrete runs\<close>

text \<open>
  A generator as the constructor leaves it, with the tape set so that the one account of
  customer \<open>CUST_00001\<close> is a CHF account of class \<open>RETAIL_STABLE_INSURED\<close> whose
  balance draw is \<open>5000 + 75000 * (44999996 / 75000000) = 49999.996\<close>.
\<close>

definition retail_self :: "tape FINMALCRDataGenerator" where
  "retail_self =
     (init tape_lib 1 42 95)\<lparr>rng := ([0, 0, 0], [44999996 / 75000000, 1 / 4, 1 / 2])\<rparr>"

definition retail_row :: deposit_balance where
  "retail_row =
     \<lparr> ACCOUNT_ID = ''CUST_00001_DEP_01'', AS_OF_DATE = ''00000000'',
       CUSTOMER_ID = ''CUST_00001'', DEPOSIT_TYPE = ''RETAIL_STABLE_INSURED'',
       CURRENCY = ''CHF'', BALANCE_CCY = 50000, BALANCE_CHF = 50000, FX_RATE = 1,
       IS_INSURED = True, PRODUCT_COUNT = 1, ACCOUNT_TENURE_DAYS = 30,
       HAS_DIRECT_DEBIT = True, IS_OPERATIONAL = True, COUNTERPARTY_TYPE = ''RETAIL'',
       CUSTOMER_SEGMENT = ''MASS'', ACCOUNT_STATUS = ''ACTIVE'' \<rparr>"

text \<open>
  The same generator with the balance draw at exactly 50000 (fraction \<open>3 / 5\<close>).
\<close>

definition affluent_self :: "tape FINMALCRDataGenerator" where
  "affluent_self = (init tape_lib 1 42 95)\<lparr>rng := ([0, 0, 0], [3 / 5, 1 / 4, 1 / 2])\<rparr>"

definition affluent_row :: deposit_balance where
  "affluent_row = retail_row\<lparr>CUSTOMER_SEGMENT := ''AFFLUENT''\<rparr>"

text \<open>A retail account away from the thresholds: class \<open>RETAIL_LESS_STABLE\<close>, balance 20000.\<close>

definition mass_self :: "tape FINMALCRDataGenerator" where
  "mass_self =
     (init tape_lib 1 42 95)\<lparr>rng := ([0, 2, 0, 3, 100], [1 / 5, 9 / 10, 99 / 100])\<rparr>"

definition mass_row :: deposit_balance where
  "mass_row =
     \<lparr> ACCOUNT_ID = ''CUST_00001_DEP_01'', AS_OF_DATE = ''00000000'',
       CUSTOMER_ID = ''CUST_00001'', DEPOSIT_TYPE = ''RETAIL_LESS_STABLE'',
       CURRENCY = ''CHF'', BALANCE_CCY = 20000, BALANCE_CHF = 20000, FX_RATE = 1,
       IS_INSURED = True, PRODUCT_COUNT = 1, ACCOUNT_TENURE_DAYS = 33,
       HAS_DIRECT_DEBIT = False, IS_OPERATIONAL = False, COUNTERPARTY_TYPE = ''RETAIL'',
       CUSTOMER_SEGMENT = ''MASS'', ACCOUNT_STATUS = ''DORMANT'' \<rparr>"



text \<open>Two customers: the tape gives \<open>A\<close> two accounts and \<open>B\<close> one.\<close>

definition two_self :: "tape FINMALCRDataGenerator" where
  "two_self =
     (init tape_lib 2 42 95)
       \<lparr>rng := ([1, 0, 1, 0, 2, 0, 1, 2, 3, 4, 5, 6], [1 / 10, 1 / 4, 1 / 5, 1 / 2, 1 / 3, 1 / 7])\<rparr>"

definition two_rows :: "deposit_balance list" where
  "two_rows =
     [\<lparr> ACCOUNT_ID = ''A_DEP_01'', AS_OF_DATE = ''00000007'', CUSTOMER_ID = ''A'',
        DEPOSIT_TYPE = ''RETAIL_STABLE'', CURRENCY = ''CHF'', BALANCE_CCY = 12500,
        BALANCE_CHF = 12500, FX_RATE = 1, IS_INSURED = True, PRODUCT_COUNT = 4,
        ACCOUNT_TENURE_DAYS = 34, HAS_DIRECT_DEBIT = True, IS_OPERATIONAL = True,
        COUNTERPARTY_TYPE = ''RETAIL'', CUSTOMER_SEGMENT = ''MASS'',
        ACCOUNT_STATUS = ''ACTIVE'' \<rparr>,
      \<lparr> ACCOUNT_ID = ''A_DEP_02'', AS_OF_DATE = ''00000007'', CUSTOMER_ID = ''A'',
        DEPOSIT_TYPE = ''RETAIL_STABLE_INSURED'', CURRENCY = ''EUR'',
        BALANCE_CCY = 4473684 / 100, BALANCE_CHF = 42500, FX_RATE = 95 / 100,
        IS_INSURED = True, PRODUCT_COUNT = 1, ACCOUNT_TENURE_DAYS = 36,
        HAS_DIRECT_DEBIT = True, IS_OPERATIONAL = True, COUNTERPARTY_TYPE = ''RETAIL'',
        CUSTOMER_SEGMENT = ''MASS'', ACCOUNT_STATUS = ''ACTIVE'' \<rparr>,
      \<lparr> ACCOUNT_ID = ''B_DEP_01'', AS_OF_DATE = ''00000007'', CUSTOMER_ID = ''B'',
        DEPOSIT_TYPE = ''RETAIL_LESS_STABLE'', CURRENCY = ''USD'',
        BALANCE_CCY = 568182 / 100, BALANCE_CHF = 5000, FX_RATE = 88 / 100,
        IS_INSURED = True, PRODUCT_COUNT = 1, ACCOUNT_TENURE_DAYS = 30,
        HAS_DIRECT_DEBIT = True, IS_OPERATIONAL = False, COUNTERPARTY_TYPE = ''RETAIL'',
        CUSTOMER_SEGMENT = ''MASS'', ACCOUNT_STATUS = ''ACTIVE'' \<rparr>]"

text \<open>
  Generators whose tables have been replaced after construction: one with an empty HQLA
  table, one whose deposit weights sum to \<open>0.9\<close>.
\<close>

definition empty_table_self :: "tape FINMALCRDataGenerator" where
  "empty_table_self = (init tape_lib 1000 42 95)\<lparr>hqla_assets := []\<rparr>"

definition short_weights_self :: "tape FINMALCRDataGenerator" where
  "short_weights_self =
     (init tape_lib 1000 42 95)
       \<lparr>deposit_types :=
          [(''RETAIL_STABLE'', 50 / 100, ''RETAIL'', 5 / 100, True, True),
           (''RETAIL_LESS_STABLE'', 40 / 100, ''RETAIL'', 10 / 100, False, False)]\<rparr>"

subsection \<open>The segment rule in the words of the specification\<close>

text \<open>
  RETAIL: below 50000 MASS, below 250000 AFFLUENT, else PRIVATE; every other counterparty
  type CORPORATE.
\<close>

definition segment_of :: "string \<Rightarrow> real \<Rightarrow> string" where
  "segment_of counterparty_type balance =
     (if counterparty_type = ''RETAIL'' then
        (if balance < 50000 then ''MASS''
         else if balance < 250000 then ''AFFLUENT''
         else ''PRIVATE'')
      else ''CORPORATE'')"

section \<open>Properties\<close>

subsection \<open>The concrete library meets the contract\<close>

lemma tape_integers_range:
  "lo < hi \<Longrightarrow> lo \<le> fst (tape_integers lo hi t) \<and> fst (tape_integers lo hi t) < hi"
proof -
  assume "lo < hi"
  then have "0 < hi - lo" by simp
  then have "0 \<le> int (fst (pop_nat t)) mod (hi - lo) \<and> int (fst (pop_nat t)) mod (hi - lo) < hi - lo"
    by (simp add: pos_mod_bound)
  then show ?thesis
    by (cases "pop_nat t") (simp add: tape_integers_def)
qed

lemma tape_integers_size_length: "length (fst (tape_integers_size lo hi n t)) = n"
proof (induction n arbitrary: t)
  case 0
  then show ?case by simp
next
  case (Suc n)
  obtain k0 t' where a: "tape_integers lo hi t = (k0, t')" by (cases "tape_integers lo hi t")
  obtain ks t'' where b: "tape_integers_size lo hi n t' = (ks, t'')"
    by (cases "tape_integers_size lo hi n t'")
  from Suc [of t'] a b show ?case by simp
qed

lemma tape_integers_size_range:
  "lo < hi \<Longrightarrow> k \<in> set (fst (tape_integers_size lo hi n t)) \<Longrightarrow> lo \<le> k \<and> k < hi"
proof (induction n arbitrary: t)
  case 0
  then show ?case by simp
next
  case (Suc n)
  obtain k0 t' where a: "tape_integers lo hi t = (k0, t')" by (cases "tape_integers lo hi t")
  obtain ks t'' where b: "tape_integers_size lo hi n t' = (ks, t'')"
    by (cases "tape_integers_size lo hi n t'")
  from Suc.prems(2) a b have "k = k0 \<or> k \<in> set ks" by simp
  then show ?case
  proof
    assume "k = k0"
    with tape_integers_range [OF Suc.prems(1), of t] a show ?thesis by simp
  next
    assume "k \<in> set ks"
    with Suc.IH [OF Suc.prems(1), of t'] b show ?thesis by simp
  qed
qed

lemma tape_choice_mem: "a \<noteq> [] \<Longrightarrow> fst (tape_choice a t) \<in> set a"
  by (simp add: tape_choice_def split: prod.splits)

lemma tape_choice_p_length: "length (fst (tape_choice_p a n p t)) = n"
proof (induction n arbitrary: t)
  case 0
  then show ?case by simp
next
  case (Suc n)
  obtain x t' where a: "tape_choice a t = (x, t')" by (cases "tape_choice a t")
  obtain xs t'' where b: "tape_choice_p a n p t' = (xs, t'')"
    by (cases "tape_choice_p a n p t'")
  from Suc [of t'] a b show ?case by simp
qed

lemma tape_choice_p_mem: "a \<noteq> [] \<Longrightarrow> set (fst (tape_choice_p a n p t)) \<subseteq> set a"
proof (induction n arbitrary: t)
  case 0
  then show ?case by simp
next
  case (Suc n)
  obtain x t' where a: "tape_choice a t = (x, t')" by (cases "tape_choice a t")
  obtain xs t'' where b: "tape_choice_p a n p t' = (xs, t'')"
    by (cases "tape_choice_p a n p t'")
  from tape_choice_mem [OF Suc.prems, of t] a have "x \<in> set a" by simp
  moreover from Suc.IH [OF Suc.prems, of t'] b have "set xs \<subseteq> set a" by simp
  ultimately show ?case using a b by simp
qed

lemma tape_lib_contract: "numpy_contract tape_lib"
  unfolding numpy_contract_def tape_lib_def
  using tape_integers_range tape_integers_size_length tape_integers_size_range
    tape_choice_mem tape_choice_p_length tape_choice_p_mem
  by simp

subsection \<open>Rounding\<close>

lemma py_round_le_int:
  assumes "x \<le> real_of_int m"
  shows "py_round x nd \<le> real_of_int m"
proof -
  define y where "y = x * 10 ^ nd"
  define M where "M = m * 10 ^ nd"
  have yM: "y \<le> real_of_int M"
    using assms by (simp add: y_def M_def mult_right_mono)
  then have fM: "\<lfloor>y\<rfloor> \<le> M" by (simp add: floor_le_iff)
  have up: "\<lfloor>y\<rfloor> + 1 \<le> M" if "y - of_int \<lfloor>y\<rfloor> \<ge> 1 / 2"
  proof -
    from that have "of_int \<lfloor>y\<rfloor> < y" by simp
    with yM have "real_of_int \<lfloor>y\<rfloor> < real_of_int M" by linarith
    then show ?thesis by simp
  qed
  have "(if y - of_int \<lfloor>y\<rfloor> < 1 / 2 then of_int \<lfloor>y\<rfloor>
         else if y - of_int \<lfloor>y\<rfloor> > 1 / 2 then of_int (\<lfloor>y\<rfloor> + 1)
         else if even \<lfloor>y\<rfloor> then of_int \<lfloor>y\<rfloor> else of_int (\<lfloor>y\<rfloor> + 1)) \<le> real_of_int M"
    using fM up by (auto simp del: of_int_add) 
  then have "py_round x nd * 10 ^ nd \<le> real_of_int m * 10 ^ nd"
    by (simp add: py_round_def Let_def y_def [symmetric] M_def)
  then show ?thesis by simp
qed

subsection \<open>Shape of a deposit row\<close>

lemma if_Inl_eq_Inr: "((if c then Inl e else Inr v) = Inr w) = (\<not> c \<and> v = w)"
  by simp

lemma deposit_row_shape:
  assumes "deposit_row lib self d cid dt cur counter r0 = Inr (row, counter', r')"
  shows "\<exists>b cp fx.
           CUSTOMER_ID row = cid \<and> CURRENCY row = cur \<and> COUNTERPARTY_TYPE row = cp \<and>
           FX_RATE row = fx \<and>
           fx = (case map_of (fx_rates self) cur of None \<Rightarrow> 1 | Some x \<Rightarrow> x) \<and>
           (cur \<noteq> ''CHF'' \<longrightarrow> fx \<noteq> 0) \<and>
           BALANCE_CHF row = py_round b 2 \<and>
           BALANCE_CCY row = py_round (if cur \<noteq> ''CHF'' then b / fx else b) 2 \<and>
           IS_INSURED row = (cp = ''RETAIL'' \<and> b \<le> 100000) \<and>
           CUSTOMER_SEGMENT row =
             (if cp = ''RETAIL'' then
                (if b < 50000 then ''MASS'' else if b < 250000 then ''AFFLUENT'' else ''PRIVATE'')
              else ''CORPORATE'') \<and>
           ACCOUNT_ID row =
             cid @ ''_DEP_'' @ fmt_d 2 (case counter cid of None \<Rightarrow> 1 | Some n \<Rightarrow> n + 1) \<and>
           counter' = counter(cid \<mapsto> (case counter cid of None \<Rightarrow> 1 | Some n \<Rightarrow> n + 1))"
proof -
  obtain e where fe: "find (\<lambda>d. fst d = dt) (deposit_types self) = Some e"
    using assms by (cases "find (\<lambda>d. fst d = dt) (deposit_types self)")
      (simp_all add: deposit_row_def Let_def)
  obtain a1 a2 cp a4 allows isop where e: "e = (a1, a2, cp, a4, allows, isop)"
    by (cases e)
  obtain b r1 where bd: "(if cp = ''RETAIL'' then rng_uniform lib 5000 80000 r0
              else if cp = ''CORPORATE'' then rng_uniform lib 30000 800000 r0
              else rng_uniform lib 100000 3000000 r0) = (b, r1)"
    by (rule prod.exhaust)
  obtain pc r2 where pc: "(if allows then rng_integers lib 1 6 r1 else (1, r1)) = (pc, r2)"
    by (rule prod.exhaust)
  obtain t r3 where t: "rng_integers lib 30 3650 r2 = (t, r3)"
    by (rule prod.exhaust)
  obtain x r4 where x: "rng_random lib r3 = (x, r4)"
    by (rule prod.exhaust)
  obtain y r5 where y: "rng_random lib r4 = (y, r5)"
    by (rule prod.exhaust)
  define fx where "fx = (case map_of (fx_rates self) cur of None \<Rightarrow> (1::real) | Some x \<Rightarrow> x)"
  from assms have "\<not> (cur \<noteq> ''CHF'' \<and> fx = 0) \<and>
     (\<lparr> ACCOUNT_ID = cid @ ''_DEP_'' @ fmt_d 2 (case counter cid of None \<Rightarrow> 1 | Some n \<Rightarrow> n + 1),
       AS_OF_DATE = isoformat lib d, CUSTOMER_ID = cid, DEPOSIT_TYPE = dt, CURRENCY = cur,
       BALANCE_CCY = py_round (if cur \<noteq> ''CHF'' then b / fx else b) 2,
       BALANCE_CHF = py_round b 2,
       FX_RATE = fx,
       IS_INSURED = (cp = ''RETAIL'' \<and> b \<le> 100000),
       PRODUCT_COUNT = pc,
       ACCOUNT_TENURE_DAYS = t,
       HAS_DIRECT_DEBIT = (x < (if cp = ''RETAIL'' then 7 / 10 else 3 / 10)),
       IS_OPERATIONAL = isop,
       COUNTERPARTY_TYPE = cp,
       CUSTOMER_SEGMENT = (if cp = ''RETAIL'' then
                (if b < 50000 then ''MASS'' else if b < 250000 then ''AFFLUENT'' else ''PRIVATE'')
              else ''CORPORATE''),
       ACCOUNT_STATUS = (if y < 98 / 100 then ''ACTIVE'' else ''DORMANT'') \<rparr>,
      counter(cid \<mapsto> (case counter cid of None \<Rightarrow> 1 | Some n \<Rightarrow> n + 1)), r5) = (row, counter', r')"
    by (simp only: deposit_row_def Let_def fe e option.case prod.case bd pc t x y
        fx_def [symmetric] if_Inl_eq_Inr, simp only: simp_thms)
  then have nz: "\<not> (cur \<noteq> ''CHF'' \<and> fx = 0)" and
    row: "row = \<lparr> ACCOUNT_ID = cid @ ''_DEP_'' @ fmt_d 2 (case counter cid of None \<Rightarrow> 1 | Some n \<Rightarrow> n + 1),
       AS_OF_DATE = isoformat lib d, CUSTOMER_ID = cid, DEPOSIT_TYPE = dt, CURRENCY = cur,
       BALANCE_CCY = py_round (if cur \<noteq> ''CHF'' then b / fx else b) 2,
       BALANCE_CHF = py_round b 2,
       FX_RATE = fx,
       IS_INSURED = (cp = ''RETAIL'' \<and> b \<le> 100000),
       PRODUCT_COUNT = pc,
       ACCOUNT_TENURE_DAYS = t,
       HAS_DIRECT_DEBIT = (x < (if cp = ''RETAIL'' then 7 / 10 else 3 / 10)),
       IS_OPERATIONAL = isop,
       COUNTERPARTY_TYPE = cp,
       CUSTOMER_SEGMENT = (if cp = ''RETAIL'' then
                (if b < 50000 then ''MASS'' else if b < 250000 then ''AFFLUENT'' else ''PRIVATE'')
              else ''CORPORATE''),
       ACCOUNT_STATUS = (if y < 98 / 100 then ''ACTIVE'' else ''DORMANT'') \<rparr>" and
    c': "counter' = counter(cid \<mapsto> (case counter cid of None \<Rightarrow> 1 | Some n \<Rightarrow> n + 1))"
    by (simp_all only: prod.inject simp_thms)
  have sel: "CUSTOMER_ID row = cid" "CURRENCY row = cur" "COUNTERPARTY_TYPE row = cp"
    "FX_RATE row = fx" "BALANCE_CHF row = py_round b 2"
    "BALANCE_CCY row = py_round (if cur \<noteq> ''CHF'' then b / fx else b) 2"
    "IS_INSURED row = (cp = ''RETAIL'' \<and> b \<le> 100000)"
    "CUSTOMER_SEGMENT row = (if cp = ''RETAIL'' then
                (if b < 50000 then ''MASS'' else if b < 250000 then ''AFFLUENT'' else ''PRIVATE'')
              else ''CORPORATE'')"
    "ACCOUNT_ID row = cid @ ''_DEP_'' @ fmt_d 2 (case counter cid of None \<Rightarrow> 1 | Some n \<Rightarrow> n + 1)"
    by (simp_all only: row deposit_balance.simps)
  from sel nz c' show ?thesis
    unfolding fx_def by blast
qed

subsection \<open>Rows of the deposit loop\<close>

lemma deposit_loop_rows:
  "deposit_loop lib self d xs counter r = Inr (rows, r') \<Longrightarrow> row \<in> set rows \<Longrightarrow>
   \<exists>cid dt cur c0 r0 c1 r1.
     (cid, dt, cur) \<in> set xs \<and> deposit_row lib self d cid dt cur c0 r0 = Inr (row, c1, r1)"
proof (induction xs arbitrary: counter r rows)
  case Nil
  then show ?case by simp
next
  case (Cons x xs)
  obtain cid dt cur where x: "x = (cid, dt, cur)" by (cases x)
  from Cons.prems(1) obtain row0 c1 r1 rows1 where
    step: "deposit_row lib self d cid dt cur counter r = Inr (row0, c1, r1)" and
    rest: "deposit_loop lib self d xs c1 r1 = Inr (rows1, r')" and
    rows: "rows = row0 # rows1"
    by (auto simp: x split: sum.splits)
  from Cons.prems(2) rows have "row = row0 \<or> row \<in> set rows1" by simp
  then show ?case
  proof
    assume "row = row0"
    with step x show ?thesis by fastforce
  next
    assume "row \<in> set rows1"
    from Cons.IH [OF rest this] show ?thesis by fastforce
  qed
qed

lemma generate_deposit_balances_loop:
  assumes "generate_deposit_balances lib self d cids = Inr (rows, self')"
  shows "\<exists>dts r2 curs r3 r4.
           choice_p lib (map fst (deposit_types self))
             (sum_list (fst (rng_integers_size lib 1 4 (length cids) (rng self))))
             (map (\<lambda>d. fst (snd d)) (deposit_types self))
             (snd (rng_integers_size lib 1 4 (length cids) (rng self))) = Inr (dts, r2) \<and>
           choice_p lib [''CHF'', ''EUR'', ''USD'']
             (sum_list (fst (rng_integers_size lib 1 4 (length cids) (rng self))))
             [80 / 100, 15 / 100, 5 / 100] r2 = Inr (curs, r3) \<and>
           deposit_loop lib self d
             (zip (expand_customer_ids cids (fst (rng_integers_size lib 1 4 (length cids) (rng self))))
                  (zip dts curs)) Map.empty r3 = Inr (rows, r4) \<and>
           self' = self\<lparr>rng := r4\<rparr>"
  using assms unfolding generate_deposit_balances_def Let_def split_def
  by (auto split: sum.splits)



subsection \<open>Evaluated runs\<close>

lemma retail_run:
  "generate_deposit_balances tape_lib retail_self 0 [''CUST_00001''] =
     Inr ([retail_row], (init tape_lib 1 42 95)\<lparr>rng := ([], [])\<rparr>)"
  by code_simp

subsection \<open>Insurance flag\<close>

text \<open>
  Claim C3. Every record that \<open>generate_deposit_balances\<close> returns with \<open>IS_INSURED\<close>
  set has counterparty type RETAIL and a \<open>BALANCE_CHF\<close> of at most 100000. The flag is
  computed on the balance before rounding; rounding to two decimals does not lift a value
  over the integral ceiling.
\<close>

theorem insured_is_retail_within_ceiling:
  assumes "generate_deposit_balances lib self d customer_ids = Inr (rows, self')"
    and "row \<in> set rows" and "IS_INSURED row"
  shows "COUNTERPARTY_TYPE row = ''RETAIL'' \<and> BALANCE_CHF row \<le> 100000"
proof -
  from generate_deposit_balances_loop [OF assms(1)] obtain xs r3 r4 where
    "deposit_loop lib self d xs Map.empty r3 = Inr (rows, r4)" by blast
  from deposit_loop_rows [OF this assms(2)] obtain cid dt cur c0 r0 c1 r1 where
    "deposit_row lib self d cid dt cur c0 r0 = Inr (row, c1, r1)" by blast
  from deposit_row_shape [OF this] obtain b cp where
    cp: "COUNTERPARTY_TYPE row = cp" and bal: "BALANCE_CHF row = py_round b 2" and
    ins: "IS_INSURED row = (cp = ''RETAIL'' \<and> b \<le> 100000)" by blast
  from ins assms(3) have "cp = ''RETAIL''" and "b \<le> real_of_int 100000" by simp_all
  with py_round_le_int [of b 100000 2] cp bal show ?thesis by simp
qed

theorem insured_is_retail_within_ceiling_witness:
  "generate_deposit_balances tape_lib retail_self 0 [''CUST_00001''] =
     Inr ([retail_row], (init tape_lib 1 42 95)\<lparr>rng := ([], [])\<rparr>) \<and>
   IS_INSURED retail_row \<and>
   COUNTERPARTY_TYPE retail_row = ''RETAIL'' \<and> BALANCE_CHF retail_row \<le> 100000"
proof -
  have ins: "IS_INSURED retail_row" by (simp add: retail_row_def)
  have mem: "retail_row \<in> set [retail_row]" by simp
  from insured_is_retail_within_ceiling [OF retail_run mem ins] retail_run ins
  show ?thesis by simp
qed

subsection \<open>Consequences of the library contract\<close>

lemma choice_p_result:
  assumes "numpy_contract lib" and "choice_p lib a n p r = Inr (xs, r')"
  shows "length xs = nat n \<and> (a \<noteq> [] \<longrightarrow> set xs \<subseteq> set a)"
proof -
  from assms(2) have "xs = fst (rng_choice_p lib a (nat n) p r)"
    by (auto simp: choice_p_def split: if_splits)
  with assms(1) show ?thesis
    unfolding numpy_contract_def by blast
qed

lemma choice_p_succeeds:
  assumes "numpy_contract lib" and "0 \<le> n" and "a \<noteq> []" and "length p = length a"
    and "\<not> list_ex (\<lambda>w. w < 0) p" and "sum_list p = 1"
  shows "\<exists>xs r'. choice_p lib a n p r = Inr (xs, r')"
proof -
  from assms(1) have "0 \<le> choice_atol lib" unfolding numpy_contract_def by blast
  with assms(2-6) have "choice_p lib a n p r = Inr (rng_choice_p lib a (nat n) p r)"
    by (simp add: choice_p_def)
  then show ?thesis by (cases "rng_choice_p lib a (nat n) p r") auto
qed

lemma integers_size_result:
  assumes "numpy_contract lib" and "lo < hi"
  shows "length (fst (rng_integers_size lib lo hi n r)) = n"
    and "k \<in> set (fst (rng_integers_size lib lo hi n r)) \<Longrightarrow> lo \<le> k \<and> k < hi"
  using assms unfolding numpy_contract_def by blast+

lemma integers_result:
  assumes "numpy_contract lib" and "lo < hi"
  shows "lo \<le> fst (rng_integers lib lo hi r) \<and> fst (rng_integers lib lo hi r) < hi"
  using assms by (simp add: numpy_contract_def)

subsection \<open>The tables the constructor installs\<close>

lemma init_tables [simp]:
  "fx_rates (init lib n seed t) =
     [(''CHF'', 1), (''EUR'', 95 / 100), (''USD'', 88 / 100), (''GBP'', 112 / 100)]"
  "currencies (init lib n seed t) =
     [(''CHF'', 60 / 100), (''EUR'', 20 / 100), (''USD'', 15 / 100), (''GBP'', 5 / 100)]"
  "map fst (deposit_types (init lib n seed t)) =
     [''RETAIL_STABLE_INSURED'', ''RETAIL_STABLE'', ''RETAIL_LESS_STABLE'',
      ''CORPORATE_OPERATIONAL'', ''CORPORATE_NON_OPERATIONAL'', ''FINANCIAL_INSTITUTION'']"
  "map (\<lambda>d. fst (snd d)) (deposit_types (init lib n seed t)) =
     [40 / 100, 30 / 100, 15 / 100, 10 / 100, 4 / 100, 1 / 100]"
  "map fst (hqla_assets (init lib n seed t)) =
     [''CASH_SNB'', ''CASH_VAULT'', ''GOVT_BOND_CHF'', ''GOVT_BOND_FOREIGN'', ''CANTON_BOND'',
      ''COVERED_BOND'', ''EQUITY_SMI'', ''CORPORATE_BOND_AA'']"
  "map (\<lambda>a. fst (snd a)) (hqla_assets (init lib n seed t)) =
     [15 / 100, 5 / 100, 30 / 100, 10 / 100, 15 / 100, 10 / 100, 10 / 100, 5 / 100]"
  "smi_stocks (init lib n seed t) \<noteq> []"
  "credit_ratings (init lib n seed t) \<noteq> []"
  by (simp_all add: init_def)

subsection \<open>Deposit currencies\<close>

text \<open>
  Claim C10. The currency of every deposit record is CHF, EUR or USD: the deposit loop
  draws from the literal list \<open>['CHF', 'EUR', 'USD']\<close>, not from the currency table
  of the constructor, so no record has currency GBP or the GBP rate 1.12.
\<close>

theorem deposit_currency_never_gbp:
  assumes "numpy_contract lib"
    and "generate_deposit_balances lib ((init lib n seed t)\<lparr>rng := r\<rparr>) d customer_ids =
           Inr (rows, self')"
    and "row \<in> set rows"
  shows "CURRENCY row \<in> {''CHF'', ''EUR'', ''USD''} \<and> CURRENCY row \<noteq> ''GBP'' \<and>
         FX_RATE row \<noteq> 112 / 100"
proof -
  let ?self = "(init lib n seed t)\<lparr>rng := r\<rparr>"
  from generate_deposit_balances_loop [OF assms(2)] obtain dts curs r2 r3 r4 total ex where
    ch: "choice_p lib [''CHF'', ''EUR'', ''USD''] total [80 / 100, 15 / 100, 5 / 100] r2 =
           Inr (curs, r3)" and
    lp: "deposit_loop lib ?self d (zip ex (zip dts curs)) Map.empty r3 = Inr (rows, r4)"
    by blast
  from choice_p_result [OF assms(1) ch] have curs: "set curs \<subseteq> {''CHF'', ''EUR'', ''USD''}"
    by simp
  from deposit_loop_rows [OF lp assms(3)] obtain cid dt cur c0 r0 c1 r1 where
    mem: "(cid, dt, cur) \<in> set (zip ex (zip dts curs))" and
    rw: "deposit_row lib ?self d cid dt cur c0 r0 = Inr (row, c1, r1)" by blast
  from mem have "cur \<in> set curs" by (meson set_zip_rightD)
  with curs have cur: "cur \<in> {''CHF'', ''EUR'', ''USD''}" by blast
  from deposit_row_shape [OF rw] have
    c: "CURRENCY row = cur" and
    fx: "FX_RATE row = (case map_of (fx_rates ?self) cur of None \<Rightarrow> 1 | Some x \<Rightarrow> x)"
    by blast+
  from cur consider "cur = ''CHF''" | "cur = ''EUR''" | "cur = ''USD''" by blast
  then show ?thesis
  proof cases
    case 1
    with c fx show ?thesis by simp
  next
    case 2
    with c fx show ?thesis by simp
  next
    case 3
    with c fx show ?thesis by simp
  qed
qed

theorem deposit_currency_never_gbp_witness:
  "numpy_contract tape_lib \<and>
   generate_deposit_balances tape_lib retail_self 0 [''CUST_00001''] =
     Inr ([retail_row], (init tape_lib 1 42 95)\<lparr>rng := ([], [])\<rparr>) \<and>
   CURRENCY retail_row \<in> {''CHF'', ''EUR'', ''USD''} \<and> CURRENCY retail_row \<noteq> ''GBP'' \<and>
   FX_RATE retail_row \<noteq> 112 / 100"
proof -
  have mem: "retail_row \<in> set [retail_row]" by simp
  from deposit_currency_never_gbp [OF tape_lib_contract retail_run [unfolded retail_self_def] mem]
    tape_lib_contract retail_run
  show ?thesis by simp
qed

lemma generate_deposit_balances_empty:
  assumes "numpy_contract lib"
  shows "\<exists>r'. generate_deposit_balances lib ((init lib n seed t)\<lparr>rng := r\<rparr>) d [] =
                Inr ([], (init lib n seed t)\<lparr>rng := r'\<rparr>)"
proof -
  let ?init = "init lib n seed t"
  obtain counts r1 where iz: "rng_integers_size lib 1 4 0 r = (counts, r1)"
    by (cases "rng_integers_size lib 1 4 0 r")
  from integers_size_result(1) [OF assms, of 1 4 0 r] iz have counts: "counts = []" by simp
  have "\<exists>xs r'. choice_p lib (map fst (deposit_types ?init)) 0
           (map (\<lambda>d. fst (snd d)) (deposit_types ?init)) r1 = Inr (xs, r')"
    by (rule choice_p_succeeds [OF assms]) simp_all
  then obtain dts r2 where
    c1: "choice_p lib (map fst (deposit_types ?init)) 0
           (map (\<lambda>d. fst (snd d)) (deposit_types ?init)) r1 = Inr (dts, r2)"
    by blast
  have "\<exists>xs r'. choice_p lib [''CHF'', ''EUR'', ''USD''] 0 [80 / 100, 15 / 100, 5 / 100] r2 =
           Inr (xs, r')"
    by (rule choice_p_succeeds [OF assms]) simp_all
  then obtain curs r3 where
    c2: "choice_p lib [''CHF'', ''EUR'', ''USD''] 0 [80 / 100, 15 / 100, 5 / 100] r2 =
           Inr (curs, r3)"
    by blast
  from c2 have "generate_deposit_balances lib ((init lib n seed t)\<lparr>rng := r\<rparr>) d [] =
                  Inr ([], (init lib n seed t)\<lparr>rng := r3\<rparr>)"
    by (simp add: generate_deposit_balances_def iz counts expand_customer_ids_def c1
        del: init_tables)
  then show ?thesis by blast
qed

subsection \<open>No customers\<close>

text \<open>
  Claim C8. Called with the empty customer list, \<open>generate_deposit_balances\<close> raises
  nothing and returns the empty record list: the account counts are an empty array, both
  weighted draws are of size 0, and the loop body never runs.
\<close>

theorem no_customers_no_records:
  assumes "numpy_contract lib"
  shows "\<exists>self'. generate_deposit_balances lib ((init lib n seed t)\<lparr>rng := r\<rparr>) d [] =
                   Inr ([], self')"
proof -
  from generate_deposit_balances_empty [OF assms, where n = n and seed = seed and t = t
      and r = r and d = d]
  obtain r' where
    "generate_deposit_balances lib ((init lib n seed t)\<lparr>rng := r\<rparr>) d [] =
       Inr ([], (init lib n seed t)\<lparr>rng := r'\<rparr>)"
    by blast
  then show ?thesis by blast
qed

theorem no_customers_no_records_witness:
  "numpy_contract tape_lib \<and>
   generate_deposit_balances tape_lib retail_self 0 [] = Inr ([], retail_self)"
proof -
  from no_customers_no_records [OF tape_lib_contract, where n = 1 and seed = 42 and t = 95
      and r = "([0, 0, 0], [44999996 / 75000000, 1 / 4, 1 / 2])" and d = 0]
  obtain self' where "generate_deposit_balances tape_lib retail_self 0 [] = Inr ([], self')"
    unfolding retail_self_def by blast
  moreover have "generate_deposit_balances tape_lib retail_self 0 [] = Inr ([], retail_self)"
    by (simp add: generate_deposit_balances_def retail_self_def tape_lib_def choice_p_def
        expand_customer_ids_def init_def)
  ultimately show ?thesis using tape_lib_contract by simp
qed

lemma affluent_run:
  "generate_deposit_balances tape_lib affluent_self 0 [''CUST_00001''] =
     Inr ([affluent_row], (init tape_lib 1 42 95)\<lparr>rng := ([], [])\<rparr>)"
  by code_simp

lemma mass_run:
  "generate_deposit_balances tape_lib mass_self 0 [''CUST_00001''] =
     Inr ([mass_row], (init tape_lib 1 42 95)\<lparr>rng := ([100], [])\<rparr>)"
  by code_simp


lemma py_round_ge_int:
  assumes "real_of_int m \<le> x"
  shows "real_of_int m \<le> py_round x nd"
proof -
  define y where "y = x * 10 ^ nd"
  define M where "M = m * 10 ^ nd"
  have "real_of_int M \<le> y"
    using assms by (simp add: y_def M_def mult_right_mono)
  then have fM: "M \<le> \<lfloor>y\<rfloor>" by (simp add: le_floor_iff)
  have "real_of_int M \<le> (if y - of_int \<lfloor>y\<rfloor> < 1 / 2 then of_int \<lfloor>y\<rfloor>
         else if y - of_int \<lfloor>y\<rfloor> > 1 / 2 then of_int (\<lfloor>y\<rfloor> + 1)
         else if even \<lfloor>y\<rfloor> then of_int \<lfloor>y\<rfloor> else of_int (\<lfloor>y\<rfloor> + 1))"
    using fM by (auto simp del: of_int_add)
  then have "real_of_int m * 10 ^ nd \<le> py_round x nd * 10 ^ nd"
    by (simp add: py_round_def Let_def y_def [symmetric] M_def)
  then show ?thesis by simp
qed

subsection \<open>Customer segment\<close>

text \<open>
  Claim C6, as stated: the segment of a record is the threshold function of the record's
  counterparty type and balance in base currency. It fails at the threshold: the segment
  is computed from the balance as drawn, the record carries the balance rounded to two
  decimals. A draw of 49999.996 gives a RETAIL record with \<open>BALANCE_CHF = 50000.00\<close>
  and segment MASS, a draw of 50000 gives the same counterparty type and balance with
  segment AFFLUENT.
\<close>

theorem segment_not_function_of_record_balance:
  "generate_deposit_balances tape_lib retail_self 0 [''CUST_00001''] =
     Inr ([retail_row], (init tape_lib 1 42 95)\<lparr>rng := ([], [])\<rparr>) \<and>
   generate_deposit_balances tape_lib affluent_self 0 [''CUST_00001''] =
     Inr ([affluent_row], (init tape_lib 1 42 95)\<lparr>rng := ([], [])\<rparr>) \<and>
   COUNTERPARTY_TYPE retail_row = COUNTERPARTY_TYPE affluent_row \<and>
   BALANCE_CHF retail_row = BALANCE_CHF affluent_row \<and>
   CUSTOMER_SEGMENT retail_row \<noteq> CUSTOMER_SEGMENT affluent_row \<and>
   COUNTERPARTY_TYPE retail_row = ''RETAIL'' \<and> BALANCE_CHF retail_row = 50000 \<and>
   CUSTOMER_SEGMENT retail_row = ''MASS'' \<and>
   CUSTOMER_SEGMENT retail_row \<noteq>
     segment_of (COUNTERPARTY_TYPE retail_row) (BALANCE_CHF retail_row)"
  using retail_run affluent_run
  by (simp add: retail_row_def affluent_row_def segment_of_def)

text \<open>
  Claim C6, amended: the segment is the threshold function of the counterparty type and
  the balance before rounding, a value whose rounding to two decimals is
  \<open>BALANCE_CHF\<close>; it is no draw of its own. In terms of the record it is the threshold
  function of \<open>COUNTERPARTY_TYPE\<close> and \<open>BALANCE_CHF\<close> whenever \<open>BALANCE_CHF\<close> is not
  exactly a threshold.
\<close>

theorem segment_from_unrounded_balance:
  assumes "generate_deposit_balances lib self d customer_ids = Inr (rows, self')"
    and "row \<in> set rows"
  shows "(\<exists>b. BALANCE_CHF row = py_round b 2 \<and>
              CUSTOMER_SEGMENT row = segment_of (COUNTERPARTY_TYPE row) b) \<and>
         (BALANCE_CHF row \<noteq> 50000 \<and> BALANCE_CHF row \<noteq> 250000 \<longrightarrow>
            CUSTOMER_SEGMENT row = segment_of (COUNTERPARTY_TYPE row) (BALANCE_CHF row))"
proof -
  from generate_deposit_balances_loop [OF assms(1)] obtain xs r3 r4 where
    "deposit_loop lib self d xs Map.empty r3 = Inr (rows, r4)" by blast
  from deposit_loop_rows [OF this assms(2)] obtain cid dt cur c0 r0 c1 r1 where
    "deposit_row lib self d cid dt cur c0 r0 = Inr (row, c1, r1)" by blast
  from deposit_row_shape [OF this] obtain b cp where
    cp: "COUNTERPARTY_TYPE row = cp" and bal: "BALANCE_CHF row = py_round b 2" and
    seg: "CUSTOMER_SEGMENT row =
            (if cp = ''RETAIL'' then
               (if b < 50000 then ''MASS'' else if b < 250000 then ''AFFLUENT'' else ''PRIVATE'')
             else ''CORPORATE'')"
    by blast
  from seg cp have seg': "CUSTOMER_SEGMENT row = segment_of (COUNTERPARTY_TYPE row) b"
    by (simp add: segment_of_def)
  have below: "(b < real_of_int m) = (py_round b 2 < real_of_int m)"
    if "py_round b 2 \<noteq> real_of_int m" for m
  proof
    assume "b < real_of_int m"
    then have "py_round b 2 \<le> real_of_int m" by (intro py_round_le_int) simp
    with that show "py_round b 2 < real_of_int m" by simp
  next
    assume lt: "py_round b 2 < real_of_int m"
    show "b < real_of_int m"
    proof (rule ccontr)
      assume "\<not> b < real_of_int m"
      then have "real_of_int m \<le> py_round b 2" by (intro py_round_ge_int) simp
      with lt show False by simp
    qed
  qed
  have "CUSTOMER_SEGMENT row = segment_of (COUNTERPARTY_TYPE row) (BALANCE_CHF row)"
    if "BALANCE_CHF row \<noteq> 50000" "BALANCE_CHF row \<noteq> 250000"
  proof -
    from that bal below [of 50000] below [of 250000]
    have "(b < 50000) = (py_round b 2 < 50000)" "(b < 250000) = (py_round b 2 < 250000)"
      by simp_all
    with seg' bal show ?thesis by (simp add: segment_of_def)
  qed
  with seg' bal show ?thesis by blast
qed

theorem segment_from_unrounded_balance_witness:
  "generate_deposit_balances tape_lib mass_self 0 [''CUST_00001''] =
     Inr ([mass_row], (init tape_lib 1 42 95)\<lparr>rng := ([100], [])\<rparr>) \<and>
   BALANCE_CHF mass_row \<noteq> 50000 \<and> BALANCE_CHF mass_row \<noteq> 250000 \<and>
   CUSTOMER_SEGMENT mass_row = segment_of (COUNTERPARTY_TYPE mass_row) (BALANCE_CHF mass_row) \<and>
   CUSTOMER_SEGMENT mass_row = ''MASS''"
proof -
  have mem: "mass_row \<in> set [mass_row]" by simp
  have ne: "BALANCE_CHF mass_row \<noteq> 50000 \<and> BALANCE_CHF mass_row \<noteq> 250000"
    by (simp add: mass_row_def)
  from segment_from_unrounded_balance [OF mass_run mem] ne
  have "CUSTOMER_SEGMENT mass_row =
          segment_of (COUNTERPARTY_TYPE mass_row) (BALANCE_CHF mass_row)"
    by blast
  moreover have "CUSTOMER_SEGMENT mass_row = ''MASS''" by (simp add: mass_row_def)
  ultimately show ?thesis using mass_run ne by simp
qed

subsection \<open>Shape of a holding row\<close>

lemma choice_nonempty: "a \<noteq> [] \<Longrightarrow> choice lib a r = Inr (rng_choice lib a r)"
  by (simp add: choice_def)

lemma security_fields_succeeds:
  assumes "smi_stocks self \<noteq> []" and "credit_ratings self \<noteq> []"
  shows "\<exists>v r'. security_fields lib self d a c r = Inr (v, r')"
  using assms by (auto simp: security_fields_def choice_nonempty Let_def split_def)

lemma hqla_row_eq:
  assumes sf: "security_fields lib self d a c r0 = Inr ((isin, smi, cr, md, q, name), r1)"
    and bv: "(if a \<in> set [''CASH_SNB'', ''CASH_VAULT'']
              then rng_uniform lib 10000000 200000000 r1
              else if str_contains ''EQUITY'' a
              then rng_uniform lib 5000000 100000000 r1
              else rng_uniform lib 20000000 500000000 r1) = (bv, r2)"
    and u: "rng_uniform lib (- (5 / 100)) (5 / 100) r2 = (u, r3)"
    and fx: "map_of (fx_rates self) c = Some fx"
    and x: "rng_random lib r3 = (x, r4)"
    and pc: "rng_choice lib [''TREASURY_LIQ'', ''TREASURY_INV'', ''ALM_BUFFER''] r4 = (pc, r5)"
    and cu: "rng_choice lib [''SIX SIS'', ''EUROCLEAR'', ''CLEARSTREAM''] r5 = (cu, r6)"
  shows "hqla_row lib self d v i a c r0 =
     (if c \<noteq> ''CHF'' \<and> fx = 0 then Inl ZeroDivisionError
      else Inr (\<lparr> HOLDING_ID = ''HOLD-'' @ strftime_Ymd lib d @ ''-'' @ fmt_d 5 (int i + 1),
                  AS_OF_DATE = isoformat lib d,
                  ASSET_TYPE = a,
                  ISIN = isin,
                  SECURITY_NAME = name,
                  CURRENCY = c,
                  QUANTITY = q,
                  MARKET_VALUE_CCY =
                    py_round (if c \<noteq> ''CHF'' then bv * (1 + v * u) / fx else bv * (1 + v * u)) 2,
                  MARKET_VALUE_CHF = py_round (bv * (1 + v * u)) 2,
                  FX_RATE = fx,
                  MATURITY_DATE = md,
                  CREDIT_RATING = cr,
                  SMI_CONSTITUENT = smi,
                  HQLA_ELIGIBLE = (x > 5 / 100),
                  PORTFOLIO_CODE = pc,
                  CUSTODIAN = cu \<rparr>, r6))"
proof -
  have c1: "choice lib [''TREASURY_LIQ'', ''TREASURY_INV'', ''ALM_BUFFER''] r4 = Inr (pc, r5)"
    by (simp add: choice_nonempty pc)
  have c2: "choice lib [''SIX SIS'', ''EUROCLEAR'', ''CLEARSTREAM''] r5 = Inr (cu, r6)"
    by (simp add: choice_nonempty cu)
  show ?thesis
    by (simp only: hqla_row_def Let_def sf bv u fx x c1 c2 sum.case prod.case option.case)
qed

lemma hqla_row_cases:
  obtains (sf_error) e where "security_fields lib self d a c r0 = Inl e"
      and "hqla_row lib self d v i a c r0 = Inl e"
  | (key_error) "map_of (fx_rates self) c = None"
      and "hqla_row lib self d v i a c r0 = Inl KeyError"
  | (row) fx m row r6 where "map_of (fx_rates self) c = Some fx"
      and "hqla_row lib self d v i a c r0 =
             (if c \<noteq> ''CHF'' \<and> fx = 0 then Inl ZeroDivisionError else Inr (row, r6))"
      and "hqla_holding.CURRENCY row = c" and "hqla_holding.FX_RATE row = fx"
      and "MARKET_VALUE_CHF row = py_round m 2"
      and "MARKET_VALUE_CCY row = py_round (if c \<noteq> ''CHF'' then m / fx else m) 2"
proof (cases "security_fields lib self d a c r0")
  case (Inl e)
  then have "hqla_row lib self d v i a c r0 = Inl e"
    by (simp only: hqla_row_def Let_def sum.case)
  with Inl show ?thesis by (rule sf_error)
next
  case (Inr p)
  obtain isin smi cr md q name r1 where p: "p = ((isin, smi, cr, md, q, name), r1)"
    by (cases p) auto
  obtain bv r2 where bv: "(if a \<in> set [''CASH_SNB'', ''CASH_VAULT'']
              then rng_uniform lib 10000000 200000000 r1
              else if str_contains ''EQUITY'' a
              then rng_uniform lib 5000000 100000000 r1
              else rng_uniform lib 20000000 500000000 r1) = (bv, r2)"
    by (rule prod.exhaust)
  obtain u r3 where u: "rng_uniform lib (- (5 / 100)) (5 / 100) r2 = (u, r3)"
    by (rule prod.exhaust)
  show ?thesis
  proof (cases "map_of (fx_rates self) c")
    case None
    then have "hqla_row lib self d v i a c r0 = Inl KeyError"
      by (simp only: hqla_row_def Let_def Inr p bv u sum.case prod.case option.case)
    with None show ?thesis by (rule key_error)
  next
    case (Some fx)
    obtain x r4 where x: "rng_random lib r3 = (x, r4)" by (rule prod.exhaust)
    obtain pc r5 where
      pc: "rng_choice lib [''TREASURY_LIQ'', ''TREASURY_INV'', ''ALM_BUFFER''] r4 = (pc, r5)"
      by (rule prod.exhaust)
    obtain cu r6 where
      cu: "rng_choice lib [''SIX SIS'', ''EUROCLEAR'', ''CLEARSTREAM''] r5 = (cu, r6)"
      by (rule prod.exhaust)
    note eq = hqla_row_eq [OF Inr [unfolded p] bv u Some x pc cu, of v i]
    show ?thesis
      by (rule row [OF Some eq, of "bv * (1 + v * u)"]) (simp_all only: hqla_holding.simps)
  qed
qed

subsection \<open>Rows of the holdings loop\<close>

lemma hqla_row_succeeds:
  assumes "smi_stocks self \<noteq> []" and "credit_ratings self \<noteq> []"
    and "map_of (fx_rates self) c = Some fx" and "c \<noteq> ''CHF'' \<longrightarrow> fx \<noteq> 0"
  shows "\<exists>row r'. hqla_row lib self d v i a c r0 = Inr (row, r')"
proof (cases rule: hqla_row_cases [of lib self d a c r0 v i])
  case (sf_error e)
  with security_fields_succeeds [OF assms(1,2), of lib d a c r0] show ?thesis by simp
next
  case key_error
  with assms(3) show ?thesis by simp
next
  case (row fx' m row r6)
  with assms(3,4) show ?thesis by auto
qed

lemma hqla_loop_length:
  "hqla_loop lib self d v i xs r = Inr (rows, r') \<Longrightarrow> length rows = length xs"
proof (induction xs arbitrary: i r rows)
  case Nil
  then show ?case by simp
next
  case (Cons x xs)
  obtain a c where x: "x = (a, c)" by (cases x)
  from Cons.prems obtain row r1 rows1 where
    "hqla_loop lib self d v (Suc i) xs r1 = Inr (rows1, r')" and "rows = row # rows1"
    by (auto simp: x split: sum.splits)
  with Cons.IH show ?case by simp
qed


lemma hqla_loop_succeeds:
  assumes "smi_stocks self \<noteq> []" and "credit_ratings self \<noteq> []"
    and "\<And>a c. (a, c) \<in> set xs \<Longrightarrow>
           \<exists>fx. map_of (fx_rates self) c = Some fx \<and> (c \<noteq> ''CHF'' \<longrightarrow> fx \<noteq> 0)"
  shows "\<exists>rows r'. hqla_loop lib self d v i xs r = Inr (rows, r')"
  using assms(3)
proof (induction xs arbitrary: i r)
  case Nil
  then show ?case by simp
next
  case (Cons x xs)
  obtain a c where x: "x = (a, c)" by (cases x)
  from Cons.prems [of a c] x obtain fx where
    "map_of (fx_rates self) c = Some fx" "c \<noteq> ''CHF'' \<longrightarrow> fx \<noteq> 0" by auto
  from hqla_row_succeeds [OF assms(1,2) this, of lib d v i a r] obtain row r1 where
    step: "hqla_row lib self d v i a c r = Inr (row, r1)" by blast
  have "\<exists>rows r'. hqla_loop lib self d v (Suc i) xs r1 = Inr (rows, r')"
  proof (rule Cons.IH)
    fix a' c'
    assume "(a', c') \<in> set xs"
    then have "(a', c') \<in> set (x # xs)" by simp
    then show "\<exists>fx. map_of (fx_rates self) c' = Some fx \<and> (c' \<noteq> ''CHF'' \<longrightarrow> fx \<noteq> 0)"
      by (rule Cons.prems)
  qed
  then obtain rows r' where
    "hqla_loop lib self d v (Suc i) xs r1 = Inr (rows, r')" by blast
  with step x show ?case by simp
qed


lemma generate_hqla_holdings_returns:
  assumes "numpy_contract lib"
  shows "\<exists>rows r'.
           generate_hqla_holdings lib ((init lib n seed t)\<lparr>rng := r\<rparr>) d v =
             Inr (rows, (init lib n seed t)\<lparr>rng := r'\<rparr>) \<and>
           length rows = nat (fst (rng_integers lib 150 300 r))"
proof -
  let ?init = "init lib n seed t"
  let ?self = "?init\<lparr>rng := r\<rparr>"
  obtain k r1 where k: "rng_integers lib 150 300 r = (k, r1)"
    by (cases "rng_integers lib 150 300 r")
  from integers_result [OF assms, of 150 300 r] k have kr: "150 \<le> k" "k < 300" by simp_all
  have "\<exists>xs r'. choice_p lib (map fst (hqla_assets ?init)) k
           (map (\<lambda>a. fst (snd a)) (hqla_assets ?init)) r1 = Inr (xs, r')"
    using kr by (intro choice_p_succeeds [OF assms]) simp_all
  then obtain ats r2 where
    c1: "choice_p lib (map fst (hqla_assets ?init)) k
           (map (\<lambda>a. fst (snd a)) (hqla_assets ?init)) r1 = Inr (ats, r2)"
    by blast
  have "\<exists>xs r'. choice_p lib (map fst (currencies ?init)) k
           (map snd (currencies ?init)) r2 = Inr (xs, r')"
    using kr by (intro choice_p_succeeds [OF assms]) simp_all
  then obtain curs r3 where
    c2: "choice_p lib (map fst (currencies ?init)) k (map snd (currencies ?init)) r2 =
           Inr (curs, r3)"
    by blast
  from choice_p_result [OF assms c1] have la: "length ats = nat k" by simp
  from choice_p_result [OF assms c2] have lc: "length curs = nat k"
    and sc: "set curs \<subseteq> {''CHF'', ''EUR'', ''USD'', ''GBP''}" by auto
  have fx: "\<exists>fx. map_of (fx_rates ?self) c = Some fx \<and> (c \<noteq> ''CHF'' \<longrightarrow> fx \<noteq> 0)"
    if "(a, c) \<in> set (zip ats curs)" for a c
  proof -
    from that have "c \<in> set curs" by (meson set_zip_rightD)
    with sc consider "c = ''CHF''" | "c = ''EUR''" | "c = ''USD''" | "c = ''GBP''" by blast
    then show ?thesis
    proof cases
      case 1
      then show ?thesis by simp
    next
      case 2
      then show ?thesis by (intro exI [of _ "95 / 100"]) simp
    next
      case 3
      then show ?thesis by (intro exI [of _ "88 / 100"]) simp
    next
      case 4
      then show ?thesis by (intro exI [of _ "112 / 100"]) simp
    qed
  qed
  have "\<exists>rows r'. hqla_loop lib ?self d v 0 (zip ats curs) r3 = Inr (rows, r')"
    by (rule hqla_loop_succeeds [OF _ _ fx]) simp_all
  then obtain rows r4 where lp: "hqla_loop lib ?self d v 0 (zip ats curs) r3 = Inr (rows, r4)"
    by blast
  from hqla_loop_length [OF lp] la lc have len: "length rows = nat k" by simp
  have "generate_hqla_holdings lib ?self d v = Inr (rows, ?self\<lparr>rng := r4\<rparr>)"
    using c1 c2 lp by (simp add: generate_hqla_holdings_def k del: init_tables)
  with len k show ?thesis by auto
qed

subsection \<open>Number of holdings\<close>

text \<open>
  Claim C7. On every call, \<open>generate_hqla_holdings\<close> draws the number of holdings with
  \<open>rng.integers(150, 300)\<close> and returns exactly that many records, so between 150 and
  299. The generator is the constructor's, in any state of its random stream, which is
  the situation on every day of every run; the call raises nothing.
\<close>

theorem holdings_count_between_150_and_299:
  assumes "numpy_contract lib"
  shows "\<exists>rows self'.
           generate_hqla_holdings lib ((init lib n seed t)\<lparr>rng := r\<rparr>) d v = Inr (rows, self') \<and>
           int (length rows) = fst (rng_integers lib 150 300 r) \<and>
           150 \<le> length rows \<and> length rows \<le> 299"
proof -
  from generate_hqla_holdings_returns [OF assms, where n = n and seed = seed and t = t
      and r = r and d = d and v = v]
  obtain rows self' where
    run: "generate_hqla_holdings lib ((init lib n seed t)\<lparr>rng := r\<rparr>) d v = Inr (rows, self')"
    and len: "length rows = nat (fst (rng_integers lib 150 300 r))"
    by blast
  from integers_result [OF assms, of 150 300 r]
  have "150 \<le> fst (rng_integers lib 150 300 r)" "fst (rng_integers lib 150 300 r) < 300"
    by simp_all
  with len have "int (length rows) = fst (rng_integers lib 150 300 r)"
    "150 \<le> length rows" "length rows \<le> 299"
    by simp_all
  with run show ?thesis by blast
qed

theorem holdings_count_between_150_and_299_witness:
  "numpy_contract tape_lib \<and>
   (\<exists>rows self'.
      generate_hqla_holdings tape_lib ((init tape_lib 10 42 95)\<lparr>rng := ([7], [])\<rparr>) 0 0 =
        Inr (rows, self') \<and>
      length rows = 157)"
proof -
  have "fst (rng_integers tape_lib 150 300 ([7], [])) = 157"
    by (simp add: tape_lib_def tape_integers_def pop_nat_def)
  with holdings_count_between_150_and_299 [OF tape_lib_contract, where n = 10 and seed = 42
      and t = 95 and r = "([7], [])" and d = 0 and v = 0]
    tape_lib_contract
  show ?thesis by auto
qed

subsection \<open>Rounding error and currency round trip\<close>









subsection \<open>Currency conversion\<close>



subsection \<open>Account numbering\<close>

lemma upt_Suc_shift: "[1..<Suc (Suc n)] = 1 # map Suc [1..<Suc n]"
  by (simp add: map_Suc_upt upt_conv_Cons del: upt_Suc)

lemma deposit_loop_account_ids:
  "deposit_loop lib self d xs counter r = Inr (rows, r') \<Longrightarrow>
   map ACCOUNT_ID (filter (\<lambda>row. CUSTOMER_ID row = c) rows) =
     map (\<lambda>i. c @ ''_DEP_'' @ fmt_d 2 ((case counter c of None \<Rightarrow> 0 | Some n \<Rightarrow> n) + int i))
         [1..<Suc (count_list (map fst xs) c)]"
proof (induction xs arbitrary: counter r rows)
  case Nil
  then show ?case by simp
next
  case (Cons x xs)
  obtain cid dt cur where x: "x = (cid, dt, cur)" by (cases x)
  from Cons.prems obtain row0 c1 r1 rows1 where
    step: "deposit_row lib self d cid dt cur counter r = Inr (row0, c1, r1)" and
    rest: "deposit_loop lib self d xs c1 r1 = Inr (rows1, r')" and
    rows: "rows = row0 # rows1"
    by (auto simp: x split: sum.splits)
  let ?ord = "case counter cid of None \<Rightarrow> 1 | Some n \<Rightarrow> n + 1"
  from deposit_row_shape [OF step] have
    cust: "CUSTOMER_ID row0 = cid" and
    acct: "ACCOUNT_ID row0 = cid @ ''_DEP_'' @ fmt_d 2 ?ord" and
    c1: "c1 = counter(cid \<mapsto> ?ord)"
    by blast+
  note IH = Cons.IH [OF rest]
  show ?case
  proof (cases "cid = c")
    case True
    let ?base = "case counter c of None \<Rightarrow> 0 | Some n \<Rightarrow> n"
    from True c1 have b1: "(case c1 c of None \<Rightarrow> 0 | Some n \<Rightarrow> n) = ?base + 1"
      by (simp split: option.splits)
    from True have ord: "?ord = ?base + int 1" by (simp split: option.splits)
    have "map ACCOUNT_ID (filter (\<lambda>row. CUSTOMER_ID row = c) rows) =
            (c @ ''_DEP_'' @ fmt_d 2 (?base + int 1)) #
            map (\<lambda>i. c @ ''_DEP_'' @ fmt_d 2 (?base + 1 + int i))
                [1..<Suc (count_list (map fst xs) c)]"
      using rows cust acct True IH [of ] b1 ord by simp
    also have "\<dots> = map (\<lambda>i. c @ ''_DEP_'' @ fmt_d 2 (?base + int i))
                        [1..<Suc (Suc (count_list (map fst xs) c))]"
      unfolding upt_Suc_shift by (simp add: comp_def add.assoc)
    finally show ?thesis using True x by simp
  next
    case False
    with c1 have "c1 c = counter c" by simp
    with False rows cust IH x show ?thesis by simp
  qed
qed

lemma count_list_replicate: "count_list (replicate k x) y = (if x = y then k else 0)"
  by (induction k) auto

lemma count_list_expand_none:
  "c \<notin> set cids \<Longrightarrow> count_list (expand_customer_ids cids counts) c = 0"
  unfolding expand_customer_ids_def
proof (induction cids arbitrary: counts)
  case Nil
  then show ?case by simp
next
  case (Cons x cids)
  then show ?case by (cases counts) (auto simp: count_list_replicate)
qed

lemma count_list_expand:
  "distinct cids \<Longrightarrow> j < length cids \<Longrightarrow> length counts = length cids \<Longrightarrow>
   count_list (expand_customer_ids cids counts) (cids ! j) = nat (counts ! j)"
proof (induction cids arbitrary: counts j)
  case Nil
  then show ?case by simp
next
  case (Cons x cids)
  from Cons.prems(3) obtain k ks where counts: "counts = k # ks" by (cases counts) auto
  have unf: "expand_customer_ids (x # cids) (k # ks) =
               replicate (nat k) x @ expand_customer_ids cids ks"
    by (simp add: expand_customer_ids_def)
  show ?case
  proof (cases j)
    case 0
    from Cons.prems(1) have "x \<notin> set cids" by simp
    from count_list_expand_none [OF this, of ks] 0 show ?thesis
      by (simp add: counts unf count_list_replicate)
  next
    case (Suc j')
    with Cons.prems have j': "j' < length cids" and d: "distinct cids"
      and l: "length ks = length cids" and ne: "x \<noteq> cids ! j'"
      by (auto simp: counts)
    from Cons.IH [OF d j' l] Suc ne show ?thesis
      by (simp add: counts unf count_list_replicate)
  qed
qed

lemma length_expand:
  "length counts = length cids \<Longrightarrow> \<forall>k \<in> set counts. 0 \<le> k \<Longrightarrow>
   length (expand_customer_ids cids counts) = nat (sum_list counts)"
proof (induction cids arbitrary: counts)
  case Nil
  then show ?case by (simp add: expand_customer_ids_def)
next
  case (Cons x cids)
  from Cons.prems(1) obtain k ks where counts: "counts = k # ks" by (cases counts) auto
  have unf: "expand_customer_ids (x # cids) (k # ks) =
               replicate (nat k) x @ expand_customer_ids cids ks"
    by (simp add: expand_customer_ids_def)
  from Cons.prems counts have "0 \<le> k" "\<forall>k \<in> set ks. 0 \<le> k" "length ks = length cids"
    by simp_all
  moreover from this have "0 \<le> sum_list ks" by (simp add: sum_list_nonneg)
  ultimately show ?case using Cons.IH [of ks]
    by (simp add: counts unf nat_add_distrib)
qed

lemma two_run:
  "generate_deposit_balances tape_lib two_self 7 [''A'', ''B''] =
     Inr (two_rows, (init tape_lib 2 42 95)\<lparr>rng := ([], [])\<rparr>)"
  by code_simp

text \<open>
  Claim C4. In one call of \<open>generate_deposit_balances\<close> with pairwise distinct customer
  ids, the records of the customer at position \<open>j\<close>, whose drawn account count is
  \<open>k\<close>, carry the account ids \<open>{customer_id}_DEP_01\<close> up to the ordinal \<open>k\<close>, in
  this order and nothing else: the ordinals are exactly 1, ..., k. The counter is a fresh
  dictionary in every call and is keyed by customer.
\<close>

theorem account_ordinals_per_customer:
  assumes "numpy_contract lib" and "distinct customer_ids"
    and "generate_deposit_balances lib self d customer_ids = Inr (rows, self')"
    and "j < length customer_ids"
    and "k = fst (rng_integers_size lib 1 4 (length customer_ids) (rng self)) ! j"
  shows "1 \<le> k \<and> k \<le> 3 \<and>
         map ACCOUNT_ID (filter (\<lambda>row. CUSTOMER_ID row = customer_ids ! j) rows) =
           map (\<lambda>i. customer_ids ! j @ ''_DEP_'' @ fmt_d 2 (int i)) [1..<Suc (nat k)]"
proof -
  let ?counts = "fst (rng_integers_size lib 1 4 (length customer_ids) (rng self))"
  let ?ex = "expand_customer_ids customer_ids ?counts"
  have len: "length ?counts = length customer_ids"
    by (rule integers_size_result(1) [OF assms(1)]) simp
  have rng: "1 \<le> x \<and> x < 4" if "x \<in> set ?counts" for x
    using integers_size_result(2) [OF assms(1) _ that] by simp
  from assms(4,5) len have "k \<in> set ?counts" by simp
  from rng [OF this] have k: "1 \<le> k" "k \<le> 3" by simp_all
  from generate_deposit_balances_loop [OF assms(3)] obtain dts r2 curs r3 r4 r1 where
    c1: "choice_p lib (map fst (deposit_types self)) (sum_list ?counts)
           (map (\<lambda>d. fst (snd d)) (deposit_types self)) r1 = Inr (dts, r2)" and
    c2: "choice_p lib [''CHF'', ''EUR'', ''USD''] (sum_list ?counts)
           [80 / 100, 15 / 100, 5 / 100] r2 = Inr (curs, r3)" and
    lp: "deposit_loop lib self d (zip ?ex (zip dts curs)) Map.empty r3 = Inr (rows, r4)"
    by blast
  from choice_p_result [OF assms(1) c1] have ld: "length dts = nat (sum_list ?counts)" by simp
  from choice_p_result [OF assms(1) c2] have lc: "length curs = nat (sum_list ?counts)" by simp
  have "\<forall>x \<in> set ?counts. 0 \<le> x" using rng by force
  from length_expand [OF len this] have le: "length ?ex = nat (sum_list ?counts)" .
  from le ld lc have fst: "map fst (zip ?ex (zip dts curs)) = ?ex" by simp
  from deposit_loop_account_ids [OF lp, of "customer_ids ! j"] fst
  have "map ACCOUNT_ID (filter (\<lambda>row. CUSTOMER_ID row = customer_ids ! j) rows) =
          map (\<lambda>i. customer_ids ! j @ ''_DEP_'' @ fmt_d 2 (int i))
              [1..<Suc (count_list ?ex (customer_ids ! j))]"
    by simp
  with count_list_expand [OF assms(2,4) len] assms(5) k show ?thesis by simp
qed

theorem account_ordinals_per_customer_witness:
  "numpy_contract tape_lib \<and> distinct [''A'', ''B''] \<and>
   generate_deposit_balances tape_lib two_self 7 [''A'', ''B''] =
     Inr (two_rows, (init tape_lib 2 42 95)\<lparr>rng := ([], [])\<rparr>) \<and>
   fst (rng_integers_size tape_lib 1 4 (length [''A'', ''B'']) (rng two_self)) ! 0 = 2 \<and>
   map ACCOUNT_ID (filter (\<lambda>row. CUSTOMER_ID row = ''A'') two_rows) =
     [''A_DEP_01'', ''A_DEP_02'']"
proof -
  have d: "distinct [''A'', ''B'']" by simp
  have j: "(0::nat) < length [''A'', ''B'']" by simp
  have k: "2 = fst (rng_integers_size tape_lib 1 4 (length [''A'', ''B'']) (rng two_self)) ! 0"
    by code_simp
  have fmt: "map (\<lambda>i. [''A'', ''B''] ! 0 @ ''_DEP_'' @ fmt_d 2 (int i)) [1..<Suc (nat 2)] =
               [''A_DEP_01'', ''A_DEP_02'']"
    by code_simp
  from account_ordinals_per_customer [OF tape_lib_contract d two_run j k] fmt
  have "map ACCOUNT_ID (filter (\<lambda>row. CUSTOMER_ID row = ''A'') two_rows) =
          [''A_DEP_01'', ''A_DEP_02'']"
    by simp
  with tape_lib_contract d two_run k show ?thesis by simp
qed

subsection \<open>The target LCR is never read\<close>

lemma target_lcr_fields:
  "deposit_types (self\<lparr>target_lcr := x\<rparr>) = deposit_types self"
  "hqla_assets (self\<lparr>target_lcr := x\<rparr>) = hqla_assets self"
  "currencies (self\<lparr>target_lcr := x\<rparr>) = currencies self"
  "fx_rates (self\<lparr>target_lcr := x\<rparr>) = fx_rates self"
  "credit_ratings (self\<lparr>target_lcr := x\<rparr>) = credit_ratings self"
  "smi_stocks (self\<lparr>target_lcr := x\<rparr>) = smi_stocks self"
  "rng (self\<lparr>target_lcr := x\<rparr>) = rng self"
  "num_customers (self\<lparr>target_lcr := x\<rparr>) = num_customers self"
  "self\<lparr>target_lcr := x\<rparr>\<lparr>rng := r\<rparr> = self\<lparr>rng := r\<rparr>\<lparr>target_lcr := x\<rparr>"
  by simp_all

lemma deposit_row_target_lcr:
  "deposit_row lib (self\<lparr>target_lcr := x\<rparr>) d cid dt cur counter r =
   deposit_row lib self d cid dt cur counter r"
  by (simp only: deposit_row_def target_lcr_fields)

lemma deposit_loop_target_lcr:
  "deposit_loop lib (self\<lparr>target_lcr := x\<rparr>) d xs counter r =
   deposit_loop lib self d xs counter r"
proof (induction xs arbitrary: counter r)
  case Nil
  show ?case by simp
next
  case (Cons a xs)
  obtain cid dt cur where a: "a = (cid, dt, cur)" by (cases a)
  show ?case
    unfolding a deposit_loop.simps deposit_row_target_lcr Cons.IH ..
qed

lemma security_fields_target_lcr:
  "security_fields lib (self\<lparr>target_lcr := x\<rparr>) d a c r = security_fields lib self d a c r"
  by (simp only: security_fields_def target_lcr_fields)

lemma hqla_row_target_lcr:
  "hqla_row lib (self\<lparr>target_lcr := x\<rparr>) d v i a c r = hqla_row lib self d v i a c r"
  by (simp only: hqla_row_def security_fields_target_lcr target_lcr_fields)

lemma hqla_loop_target_lcr:
  "hqla_loop lib (self\<lparr>target_lcr := x\<rparr>) d v i xs r = hqla_loop lib self d v i xs r"
proof (induction xs arbitrary: i r)
  case Nil
  show ?case by simp
next
  case (Cons p xs)
  obtain a c where p: "p = (a, c)" by (cases p)
  show ?case
    unfolding p hqla_loop.simps hqla_row_target_lcr Cons.IH ..
qed

text \<open>A result with the generator it returns relabelled.\<close>

lemma generate_hqla_holdings_target_lcr:
  "generate_hqla_holdings lib (self\<lparr>target_lcr := x\<rparr>) d v =
     (case generate_hqla_holdings lib self d v of
        Inl e \<Rightarrow> Inl e
      | Inr (rows, self') \<Rightarrow> Inr (rows, self'\<lparr>target_lcr := x\<rparr>))"
  unfolding generate_hqla_holdings_def hqla_loop_target_lcr target_lcr_fields Let_def split_def
  by (simp split: sum.splits)

lemma generate_deposit_balances_target_lcr:
  "generate_deposit_balances lib (self\<lparr>target_lcr := x\<rparr>) d cids =
     (case generate_deposit_balances lib self d cids of
        Inl e \<Rightarrow> Inl e
      | Inr (rows, self') \<Rightarrow> Inr (rows, self'\<lparr>target_lcr := x\<rparr>))"
  unfolding generate_deposit_balances_def deposit_loop_target_lcr target_lcr_fields Let_def
    split_def
  by (simp split: sum.splits)

lemma time_series_loop_target_lcr:
  "time_series_loop lib start nd out cids days (self\<lparr>target_lcr := x\<rparr>, th, td, files) =
     (case time_series_loop lib start nd out cids days (self, th, td, files) of
        Inl e \<Rightarrow> Inl e
      | Inr (self', th', td', files') \<Rightarrow> Inr (self'\<lparr>target_lcr := x\<rparr>, th', td', files'))"
proof (induction days arbitrary: self th td files)
  case Nil
  show ?case by simp
next
  case (Cons day days)
  let ?d = "add_days lib start (int day)"
  let ?v = "if day > 0 then real day / real_of_int nd else 0"
  show ?case
  proof (cases "generate_hqla_holdings lib self ?d ?v")
    case (Inl e)
    then show ?thesis
      by (simp add: generate_hqla_holdings_target_lcr Let_def split del: if_split)
  next
    case (Inr p)
    obtain hs self1 where p: "p = (hs, self1)" by (cases p)
    note h = Inr [unfolded p]
    show ?thesis
    proof (cases "generate_deposit_balances lib self1 ?d cids")
      case (Inl e)
      then show ?thesis
        by (simp add: generate_hqla_holdings_target_lcr generate_deposit_balances_target_lcr
            h Let_def split del: if_split)
    next
      case (Inr q)
      obtain ds self2 where q: "q = (ds, self2)" by (cases q)
      note dep = Inr [unfolded q]
      show ?thesis
        by (simp add: generate_hqla_holdings_target_lcr generate_deposit_balances_target_lcr
            h dep Cons.IH Let_def split del: if_split)
    qed
  qed
qed

lemma generate_time_series_target_lcr:
  "generate_time_series lib (self\<lparr>target_lcr := x\<rparr>) start nd out cids =
     (case generate_time_series lib self start nd out cids of
        Inl e \<Rightarrow> Inl e
      | Inr (totals, files, self') \<Rightarrow> Inr (totals, files, self'\<lparr>target_lcr := x\<rparr>))"
  by (simp add: generate_time_series_def time_series_loop_target_lcr Let_def
      split: sum.splits option.splits)

lemma init_target_lcr: "init lib n seed t1 = (init lib n seed t2)\<lparr>target_lcr := t1\<rparr>"
  by (simp add: init_def)

text \<open>
  Claim C9. The target LCR does not influence the data: two generators constructed with the
  same customer count and seed and with any two target values leave behind the same
  exception or the same totals, the same files with the same holding and deposit records,
  and the same state of the random stream.
\<close>

theorem target_lcr_has_no_influence:
  "written (generate_time_series lib (init lib n seed t1) start num_days output_dir customer_ids) =
   written (generate_time_series lib (init lib n seed t2) start num_days output_dir customer_ids)"
proof -
  have "init lib n seed t1 = (init lib n seed t2)\<lparr>target_lcr := t1\<rparr>"
    by (rule init_target_lcr)
  then have "generate_time_series lib (init lib n seed t1) start num_days output_dir customer_ids =
      (case generate_time_series lib (init lib n seed t2) start num_days output_dir customer_ids of
         Inl e \<Rightarrow> Inl e
       | Inr (totals, files, self') \<Rightarrow> Inr (totals, files, self'\<lparr>target_lcr := t1\<rparr>))"
    by (simp only: generate_time_series_target_lcr)
  then show ?thesis
    by (simp add: written_def split: sum.splits)
qed

subsection \<open>Weight validation\<close>

lemma choice_p_bad_weights:
  "choice_atol lib < \<bar>sum_list p - 1\<bar> \<Longrightarrow> choice_p lib a n p r = Inl ValueError"
  by (simp add: choice_p_def)

lemma choice_p_error: "choice_p lib a n p r = Inl e \<Longrightarrow> e = ValueError"
  by (auto simp: choice_p_def split: if_splits)

lemma hqla_bad_asset_weights:
  assumes "choice_atol lib < \<bar>sum_list (map (\<lambda>a. fst (snd a)) (hqla_assets self)) - 1\<bar>"
  shows "generate_hqla_holdings lib self d v = Inl ValueError"
  by (simp add: generate_hqla_holdings_def choice_p_bad_weights [OF assms] split_def)

lemma hqla_bad_currency_weights:
  assumes "choice_atol lib < \<bar>sum_list (map snd (currencies self)) - 1\<bar>"
  shows "generate_hqla_holdings lib self d v = Inl ValueError"
proof -
  obtain k r1 where k: "rng_integers lib 150 300 (rng self) = (k, r1)"
    by (cases "rng_integers lib 150 300 (rng self)")
  show ?thesis
  proof (cases "choice_p lib (map fst (hqla_assets self)) k
                  (map (\<lambda>a. fst (snd a)) (hqla_assets self)) r1")
    case (Inl e)
    with choice_p_error [OF Inl] show ?thesis
      by (simp add: generate_hqla_holdings_def k)
  next
    case (Inr p)
    obtain ats r2 where p: "p = (ats, r2)" by (cases p)
    from Inr show ?thesis
      by (simp add: generate_hqla_holdings_def k p choice_p_bad_weights [OF assms])
  qed
qed

lemma deposit_bad_weights:
  assumes "choice_atol lib < \<bar>sum_list (map (\<lambda>d. fst (snd d)) (deposit_types self)) - 1\<bar>"
  shows "generate_deposit_balances lib self d cids = Inl ValueError"
  by (simp add: generate_deposit_balances_def choice_p_bad_weights [OF assms] split_def Let_def)

text \<open>
  Claim C1, as stated: constructing the generator validates the weight lists and fails for
  a list whose sum differs from 1, before any sampling. The code has no such check. A
  generator whose HQLA table is empty (weights summing to 0) is an ordinary object: the
  deposit sampler runs on it and returns a record; the exception appears only when the
  holdings sampler reaches its weighted draw.
\<close>

theorem empty_table_fails_at_sampling_only:
  "hqla_assets empty_table_self = [] \<and>
   sum_list (map (fst \<circ> snd) (hqla_assets empty_table_self)) \<noteq> 1 \<and>
   generate_deposit_balances tape_lib empty_table_self 0 [''CUST_00001''] =
     Inr ([retail_row\<lparr>BALANCE_CCY := 5000, BALANCE_CHF := 5000\<rparr>],
          empty_table_self\<lparr>rng := ([], [])\<rparr>) \<and>
   generate_hqla_holdings tape_lib empty_table_self 0 0 = Inl ValueError"
  by code_simp

text \<open>
  Claim C1, amended: the constructor performs no validation and has no failure of its own;
  the three tables it installs are literals whose selection weights sum to exactly 1. A
  weight list whose sum differs from 1 by more than the tolerance of numpy's weighted
  choice is rejected at sampling time, by that draw: \<open>generate_hqla_holdings\<close> raises
  \<open>ValueError\<close> for such an HQLA or currency table, \<open>generate_deposit_balances\<close> for
  such a deposit table.
\<close>

theorem weights_checked_by_weighted_draw_only:
  "sum_list (map (\<lambda>a. fst (snd a)) (hqla_assets (init lib n seed t))) = 1 \<and>
   sum_list (map (\<lambda>d. fst (snd d)) (deposit_types (init lib n seed t))) = 1 \<and>
   sum_list (map snd (currencies (init lib n seed t))) = 1 \<and>
   (choice_atol lib < \<bar>sum_list (map (\<lambda>a. fst (snd a)) (hqla_assets self)) - 1\<bar> \<longrightarrow>
      generate_hqla_holdings lib self d v = Inl ValueError) \<and>
   (choice_atol lib < \<bar>sum_list (map snd (currencies self)) - 1\<bar> \<longrightarrow>
      generate_hqla_holdings lib self d v = Inl ValueError) \<and>
   (choice_atol lib < \<bar>sum_list (map (\<lambda>d. fst (snd d)) (deposit_types self)) - 1\<bar> \<longrightarrow>
      generate_deposit_balances lib self d customer_ids = Inl ValueError)"
proof -
  have "sum_list (map (\<lambda>a. fst (snd a)) (hqla_assets (init lib n seed t))) = 1"
    "sum_list (map (\<lambda>d. fst (snd d)) (deposit_types (init lib n seed t))) = 1"
    "sum_list (map snd (currencies (init lib n seed t))) = 1"
    by simp_all
  with hqla_bad_asset_weights [of lib self d v] hqla_bad_currency_weights [of lib self d v]
    deposit_bad_weights [of lib self d customer_ids]
  show ?thesis by blast
qed

theorem weights_checked_by_weighted_draw_only_witness:
  "choice_atol tape_lib <
     \<bar>sum_list (map (\<lambda>d. fst (snd d)) (deposit_types short_weights_self)) - 1\<bar> \<and>
   sum_list (map (\<lambda>d. fst (snd d)) (deposit_types short_weights_self)) = 9 / 10 \<and>
   generate_deposit_balances tape_lib short_weights_self 0 [''CUST_00001''] = Inl ValueError"
proof -
  have s: "sum_list (map (\<lambda>d. fst (snd d)) (deposit_types short_weights_self)) = 9 / 10"
    by (simp add: short_weights_self_def)
  have a: "choice_atol tape_lib <
     \<bar>sum_list (map (\<lambda>d. fst (snd d)) (deposit_types short_weights_self)) - 1\<bar>"
    unfolding s by (simp add: tape_lib_def)
  from weights_checked_by_weighted_draw_only [where lib = tape_lib and self = short_weights_self
      and d = 0 and customer_ids = "[''CUST_00001'']"] a
  have "generate_deposit_balances tape_lib short_weights_self 0 [''CUST_00001''] = Inl ValueError"
    by blast
  with a s show ?thesis by blast
qed

subsection \<open>One random stream, seeded once\<close>
















subsection \<open>An exhausted tape stays exhausted\<close>














subsection \<open>Reproducible runs\<close>



end
